theory Spec2Isabelle
  imports Complex_Main "HOL-Library.Word"
begin

section \<open>Common Python values\<close>

text \<open>
  Exceptions that the modelled code can meet. Every constructor stands for an instance of
  a subclass of Python's \<open>Exception\<close>, which is what the handlers of the source
  (\<open>except Exception as e\<close>) catch. Signals that derive from \<open>BaseException\<close> only
  (task cancellation, keyboard interrupt) are asynchronous events and not part of this
  sequential model.
\<close>

datatype exn =
    AttributeError
  | TypeError
  | JSONDecodeError
  | OSError string
  | PortAudioError string
  | ConnectionClosed
  | OtherException string

type_synonym bytes = "8 word list"

text \<open>\<open>str(n)\<close> for a Python integer: decimal digits, with a minus sign when negative.\<close>

definition digit_char :: "nat \<Rightarrow> char" where
  "digit_char d =
     (if d = 0 then CHR ''0'' else if d = 1 then CHR ''1'' else if d = 2 then CHR ''2''
      else if d = 3 then CHR ''3'' else if d = 4 then CHR ''4'' else if d = 5 then CHR ''5''
      else if d = 6 then CHR ''6'' else if d = 7 then CHR ''7'' else if d = 8 then CHR ''8''
      else CHR ''9'')"

fun str_nat :: "nat \<Rightarrow> string" where
  "str_nat n = (if n < 10 then [digit_char n] else str_nat (n div 10) @ [digit_char (n mod 10)])"

declare str_nat.simps [simp del]

definition str_int :: "int \<Rightarrow> string" where
  "str_int i = (if i < 0 then CHR ''-'' # str_nat (nat (- i)) else str_nat (nat i))"

text \<open>
  A Python \<open>dict\<close> with string keys, as an association list in insertion order.
  \<open>d[k] = v\<close> replaces the value of a key that is present, in place, and appends a new
  key at the end; \<open>del d[k]\<close> drops the key; \<open>k in d\<close> and \<open>len(d)\<close> read it.
\<close>

fun dict_set :: "('k \<times> 'v) list \<Rightarrow> 'k \<Rightarrow> 'v \<Rightarrow> ('k \<times> 'v) list" where
  "dict_set [] k v = [(k, v)]"
| "dict_set ((k', v') # d) k v = (if k' = k then (k, v) # d else (k', v') # dict_set d k v)"

fun dict_del :: "('k \<times> 'v) list \<Rightarrow> 'k \<Rightarrow> ('k \<times> 'v) list" where
  "dict_del [] k = []"
| "dict_del ((k', v') # d) k = (if k' = k then d else (k', v') # dict_del d k)"

definition dict_keys :: "('k \<times> 'v) list \<Rightarrow> 'k list" where
  "dict_keys d = map fst d"

definition dict_has :: "('k \<times> 'v) list \<Rightarrow> 'k \<Rightarrow> bool" where
  "dict_has d k = (k \<in> set (dict_keys d))"

definition dict_get :: "('k \<times> 'v) list \<Rightarrow> 'k \<Rightarrow> 'v option" where
  "dict_get d k = map_of d k"

text \<open>The representation invariant of a \<open>dict\<close>: no key occurs twice.\<close>

definition dict_ok :: "('k \<times> 'v) list \<Rightarrow> bool" where
  "dict_ok d = distinct (dict_keys d)"

section \<open>connection\_manager.py\<close>

text \<open>
  The transport handle of the \<open>websockets\<close> library, an external object. The model keeps
  what the source reads of it, \<open>remote_address\<close> (host and port), and an identity.
\<close>

record WebSocketServerProtocol =
  remote_address :: "string \<times> int"
  ws_ident :: nat

record ClientInfo =
  websocket :: WebSocketServerProtocol
  connected_at :: int
  last_activity :: int
  address :: string
  packets_sent :: int

text \<open>The calls of \<open>self.logger\<close>, one constructor per call site.\<close>

datatype cm_log =
    ClientConnected string
  | ClientDisconnected string
  | FailedToSend string exn
  | ClosingAll string
  | ErrorClosing string exn

text \<open>The calls made on transport handles, in the order they are made.\<close>

datatype transport_call =
    Send WebSocketServerProtocol bytes
  | Close WebSocketServerProtocol int string

text \<open>
  What the registry does not decide: whether \<open>websocket.send\<close> and \<open>websocket.close\<close>
  raise (\<open>None\<close>: the call returns), and what the successive calls of
  \<open>datetime.now()\<close> return.
\<close>

record net_env =
  ws_send :: "WebSocketServerProtocol \<Rightarrow> bytes \<Rightarrow> exn option"
  ws_close :: "WebSocketServerProtocol \<Rightarrow> int \<Rightarrow> string \<Rightarrow> exn option"
  datetime_now :: "nat \<Rightarrow> int"

text \<open>
  The object state: \<open>clients\<close> and \<open>total_served\<close> are the attributes of the class;
  \<open>cm_logger\<close>, \<open>wire\<close> and \<open>clock_reads\<close> record its effects (log records written,
  transport calls made, number of clock reads so far).
\<close>

record ConnectionManager =
  clients :: "(string \<times> ClientInfo) list"
  total_served :: int
  cm_logger :: "cm_log list"
  wire :: "transport_call list"
  clock_reads :: nat

definition ConnectionManager_init :: ConnectionManager where
  "ConnectionManager_init =
     \<lparr>clients = [], total_served = 0, cm_logger = [], wire = [], clock_reads = 0\<rparr>"

definition client_id_of :: "WebSocketServerProtocol \<Rightarrow> string" where
  "client_id_of ws = fst (remote_address ws) @ '':'' @ str_int (snd (remote_address ws))"

definition add_client ::
  "net_env \<Rightarrow> WebSocketServerProtocol \<Rightarrow> ConnectionManager \<Rightarrow> string \<times> ConnectionManager" where
  "add_client env ws m =
     (let client_id = client_id_of ws;
          now = datetime_now env (clock_reads m)
      in (client_id,
          m\<lparr>clients := dict_set (clients m) client_id
                \<lparr>websocket = ws, connected_at = now, last_activity = now,
                 address = client_id, packets_sent = 0\<rparr>,
            total_served := total_served m + 1,
            cm_logger := cm_logger m @ [ClientConnected client_id],
            clock_reads := Suc (clock_reads m)\<rparr>))"

definition remove_client :: "string \<Rightarrow> ConnectionManager \<Rightarrow> ConnectionManager" where
  "remove_client client_id m =
     (if dict_has (clients m) client_id
      then m\<lparr>clients := dict_del (clients m) client_id,
             cm_logger := cm_logger m @ [ClientDisconnected client_id]\<rparr>
      else m)"

definition get_active_clients :: "ConnectionManager \<Rightarrow> ClientInfo list" where
  "get_active_clients m = map snd (clients m)"

record client_stats =
  stat_address :: string
  stat_connected_at :: int
  stat_packets_sent :: int

record stats =
  connected :: nat
  stats_total_served :: int
  stats_clients :: "client_stats list"

definition get_stats :: "ConnectionManager \<Rightarrow> stats" where
  "get_stats m =
     \<lparr>connected = length (clients m),
      stats_total_served = total_served m,
      stats_clients =
        map (\<lambda>c. \<lparr>stat_address = address c, stat_connected_at = connected_at c,
                   stat_packets_sent = packets_sent c\<rparr>) (map snd (clients m))\<rparr>"

text \<open>
  The first loop of \<open>broadcast\<close>, over \<open>self.clients.items()\<close>: a send that returns
  updates the session in place, a send that raises is logged and its key appended to
  \<open>failed_clients\<close>. The loop itself never removes a key.
\<close>

fun broadcast_sweep ::
  "net_env \<Rightarrow> bytes \<Rightarrow> (string \<times> ClientInfo) list \<Rightarrow> ConnectionManager \<Rightarrow> string list
     \<Rightarrow> ConnectionManager \<times> string list" where
  "broadcast_sweep env data [] m failed_clients = (m, failed_clients)"
| "broadcast_sweep env data ((client_id, client_info) # rest) m failed_clients =
     (case ws_send env (websocket client_info) data of
        None \<Rightarrow>
          broadcast_sweep env data rest
            (m\<lparr>clients := dict_set (clients m) client_id
                  (client_info\<lparr>packets_sent := packets_sent client_info + 1,
                               last_activity := datetime_now env (clock_reads m)\<rparr>),
               wire := wire m @ [Send (websocket client_info) data],
               clock_reads := Suc (clock_reads m)\<rparr>)
            failed_clients
      | Some e \<Rightarrow>
          broadcast_sweep env data rest
            (m\<lparr>wire := wire m @ [Send (websocket client_info) data],
               cm_logger := cm_logger m @ [FailedToSend client_id e]\<rparr>)
            (failed_clients @ [client_id]))"

text \<open>The second loop of \<open>broadcast\<close>: \<open>remove_client\<close> for every collected key.\<close>

fun remove_failed :: "string list \<Rightarrow> ConnectionManager \<Rightarrow> ConnectionManager" where
  "remove_failed [] m = m"
| "remove_failed (client_id # rest) m = remove_failed rest (remove_client client_id m)"

definition broadcast :: "net_env \<Rightarrow> bytes \<Rightarrow> ConnectionManager \<Rightarrow> ConnectionManager" where
  "broadcast env data m =
     (case broadcast_sweep env data (clients m) m [] of
        (m', failed_clients) \<Rightarrow> remove_failed failed_clients m')"

text \<open>The loop of \<open>close_all\<close>, over a copy of the items.\<close>

fun close_each ::
  "net_env \<Rightarrow> string \<Rightarrow> (string \<times> ClientInfo) list \<Rightarrow> ConnectionManager \<Rightarrow> ConnectionManager" where
  "close_each env reason [] m = m"
| "close_each env reason ((client_id, client_info) # rest) m =
     (case ws_close env (websocket client_info) 1001 reason of
        None \<Rightarrow>
          close_each env reason rest
            (m\<lparr>wire := wire m @ [Close (websocket client_info) 1001 reason]\<rparr>)
      | Some e \<Rightarrow>
          close_each env reason rest
            (m\<lparr>wire := wire m @ [Close (websocket client_info) 1001 reason],
               cm_logger := cm_logger m @ [ErrorClosing client_id e]\<rparr>))"

definition close_all :: "net_env \<Rightarrow> string \<Rightarrow> ConnectionManager \<Rightarrow> ConnectionManager" where
  "close_all env reason m =
     (let m1 = m\<lparr>cm_logger := cm_logger m @ [ClosingAll reason]\<rparr>;
          m2 = close_each env reason (clients m1) m1
      in m2\<lparr>clients := []\<rparr>)"

text \<open>\<open>connected_count\<close> of the specification is the \<open>connected\<close> entry of \<open>get_stats\<close>.\<close>

definition connected_count :: "ConnectionManager \<Rightarrow> nat" where
  "connected_count m = connected (get_stats m)"


section \<open>config.py\<close>

text \<open>
  The values that \<open>json.load\<close> produces and that the fields of a \<open>ServerConfig\<close> can
  therefore hold (the class declares \<open>int\<close> and \<open>str\<close> fields and checks nothing when it is
  built). A Python \<open>float\<close> is a rational number, an infinity or not-a-number; its
  comparisons with an \<open>int\<close> are exact.
\<close>

datatype pyfloat = Finite rat | PosInf | NegInf | NaN

datatype pyval =
    PyNone
  | PyBool bool
  | PyInt int
  | PyFloat pyfloat
  | PyStr string
  | PyList "pyval list"
  | PyDict "(string \<times> pyval) list"

text \<open>\<open>bool\<close> is a subclass of \<open>int\<close> in Python.\<close>

fun as_int :: "pyval \<Rightarrow> int option" where
  "as_int (PyInt i) = Some i"
| "as_int (PyBool b) = Some (if b then 1 else 0)"
| "as_int v = None"

text \<open>\<open>v == n\<close> for an \<open>int\<close> literal \<open>n\<close>; it never raises.\<close>

fun py_eq_int :: "pyval \<Rightarrow> int \<Rightarrow> bool" where
  "py_eq_int (PyInt i) n = (i = n)"
| "py_eq_int (PyBool b) n = ((if b then 1 else 0) = n)"
| "py_eq_int (PyFloat (Finite q)) n = (q = of_int n)"
| "py_eq_int v n = False"

text \<open>\<open>v in [n1, n2, ...]\<close> for a list of \<open>int\<close> literals.\<close>

definition py_in_ints :: "pyval \<Rightarrow> int list \<Rightarrow> bool" where
  "py_in_ints v ns = list_ex (py_eq_int v) ns"

text \<open>\<open>n <= v\<close> and \<open>v <= n\<close> for an \<open>int\<close> literal \<open>n\<close>: \<open>TypeError\<close> unless \<open>v\<close> is a number.\<close>

fun int_le_py :: "int \<Rightarrow> pyval \<Rightarrow> exn + bool" where
  "int_le_py n (PyInt i) = Inr (n \<le> i)"
| "int_le_py n (PyBool b) = Inr (n \<le> (if b then 1 else 0))"
| "int_le_py n (PyFloat (Finite q)) = Inr (of_int n \<le> q)"
| "int_le_py n (PyFloat PosInf) = Inr True"
| "int_le_py n (PyFloat NegInf) = Inr False"
| "int_le_py n (PyFloat NaN) = Inr False"
| "int_le_py n v = Inl TypeError"

fun py_le_int :: "pyval \<Rightarrow> int \<Rightarrow> exn + bool" where
  "py_le_int (PyInt i) n = Inr (i \<le> n)"
| "py_le_int (PyBool b) n = Inr ((if b then 1 else 0) \<le> n)"
| "py_le_int (PyFloat (Finite q)) n = Inr (q \<le> of_int n)"
| "py_le_int (PyFloat PosInf) n = Inr False"
| "py_le_int (PyFloat NegInf) n = Inr True"
| "py_le_int (PyFloat NaN) n = Inr False"
| "py_le_int v n = Inl TypeError"

text \<open>The chained comparison \<open>lo <= v <= hi\<close>: the second test runs only if the first holds.\<close>

definition py_between :: "int \<Rightarrow> pyval \<Rightarrow> int \<Rightarrow> exn + bool" where
  "py_between lo v hi =
     (case int_le_py lo v of
        Inl e \<Rightarrow> Inl e
      | Inr False \<Rightarrow> Inr False
      | Inr True \<Rightarrow> py_le_int v hi)"

record ServerConfig =
  http_port :: pyval
  ws_port :: pyval
  sample_rate :: pyval
  channels :: pyval
  block_size :: pyval
  log_level :: pyval
  max_reconnect_attempts :: pyval
  client_timeout_seconds :: pyval

text \<open>\<open>ServerConfig()\<close>: every field at its default.\<close>

definition ServerConfig_default :: ServerConfig where
  "ServerConfig_default =
     \<lparr>http_port = PyInt 5000, ws_port = PyInt 8765, sample_rate = PyInt 44100,
      channels = PyInt 2, block_size = PyInt 1024, log_level = PyStr ''INFO'',
      max_reconnect_attempts = PyInt 10, client_timeout_seconds = PyInt 30\<rparr>"

text \<open>
  \<open>validate_config\<close>. The checks run in the order of the source; a comparison that raises
  ends the function with that exception. \<open>upper\<close> is Python's \<open>str.upper\<close>, a parameter of
  the model. The warnings written to the \<open>logging\<close> module are not modelled.
\<close>

definition valid_sample_rates :: "int list" where
  "valid_sample_rates = [22050, 44100, 48000]"








text \<open>The invariant of the capture configuration, read with Python's own comparisons.\<close>

definition capture_invariant :: "ServerConfig \<Rightarrow> bool" where
  "capture_invariant config =
     (py_in_ints (sample_rate config) valid_sample_rates
      \<and> py_between 512 (block_size config) 4096 = Inr True)"

text \<open>A configuration whose fields have the declared types.\<close>

text \<open>The values that Python compares with an \<open>int\<close> without raising.\<close>

fun is_number :: "pyval \<Rightarrow> bool" where
  "is_number (PyInt i) = True"
| "is_number (PyBool b) = True"
| "is_number (PyFloat f) = True"
| "is_number v = False"

definition well_typed :: "ServerConfig \<Rightarrow> bool" where
  "well_typed config =
     (case (http_port config, ws_port config, sample_rate config, channels config,
            block_size config, log_level config) of
        (PyInt _, PyInt _, PyInt _, PyInt _, PyInt _, PyStr _) \<Rightarrow> True
      | _ \<Rightarrow> False)"


section \<open>audio\_capture.py\<close>

text \<open>
  The \<open>sounddevice\<close> library is external. A device is the dictionary \<open>query_devices\<close>
  returns, an \<open>InputStream\<close> is the object with the arguments it was built from.
\<close>

record device =
  name :: string
  max_input_channels :: int
  max_output_channels :: int

datatype WasapiSettings = WasapiLoopback

record InputStream =
  st_device :: nat
  st_samplerate :: pyval
  st_channels :: pyval
  st_blocksize :: pyval
  st_dtype :: string
  st_extra_settings :: "WasapiSettings option"

text \<open>
  What the library and the devices decide: the enumeration, whether building the settings
  object, building a stream, starting, stopping or closing it raises (\<open>None\<close>: the call
  returns), and what a read gives (the frames as rows of 16-bit samples and the overflow
  flag). \<open>str_lower\<close> is Python's \<open>str.lower\<close>.
\<close>

record audio_env =
  query_devices :: "exn + device list"
  query_device :: "nat \<Rightarrow> exn + device"
  new_WasapiSettings :: "exn + WasapiSettings"
  new_InputStream :: "InputStream \<Rightarrow> exn option"
  stream_start :: "InputStream \<Rightarrow> exn option"
  stream_stop :: "InputStream \<Rightarrow> exn option"
  stream_close :: "InputStream \<Rightarrow> exn option"
  stream_read :: "InputStream \<Rightarrow> pyval \<Rightarrow> exn + (16 word list list \<times> bool)"
  str_lower :: "string \<Rightarrow> string"

text \<open>The calls of \<open>self.logger\<close>, one constructor per call site.\<close>

datatype ac_log =
    AvailableDevices
  | DeviceLine nat string int int
  | TryingWasapi nat
  | WasapiSuccess nat string
  | WasapiFailed nat exn
  | TryingStereoMixFallback
  | TryingStereoMix nat
  | StereoMixSuccess nat string
  | StereoMixFailed nat exn
  | NoAudioSource
  | ErrorReading exn
  | ErrorStopping exn
  | CaptureStopped
  | Reinitializing

record AudioCapture =
  config :: ServerConfig
  stream :: "InputStream option"
  is_running :: bool
  device_name :: string
  ac_logger :: "ac_log list"

text \<open>\<open>AudioCapture.__init__\<close>.\<close>

definition AudioCapture_init :: "ServerConfig \<Rightarrow> AudioCapture" where
  "AudioCapture_init cfg =
     \<lparr>config = cfg, stream = None, is_running = False, device_name = ''Unknown'',
      ac_logger = []\<rparr>"

definition logged :: "ac_log list \<Rightarrow> AudioCapture \<Rightarrow> AudioCapture" where
  "logged recs s = s\<lparr>ac_logger := ac_logger s @ recs\<rparr>"

text \<open>\<open>sub in s\<close> on strings.\<close>

fun str_contains :: "string \<Rightarrow> string \<Rightarrow> bool" where
  "str_contains sub [] = (sub = [])"
| "str_contains sub (c # cs) = (take (length sub) (c # cs) = sub \<or> str_contains sub cs)"

text \<open>\<open>_list_devices\<close>: an exception of \<open>sd.query_devices()\<close> is not caught.\<close>

definition list_devices :: "audio_env \<Rightarrow> AudioCapture \<Rightarrow> (exn + device list) \<times> AudioCapture" where
  "list_devices env s =
     (case query_devices env of
        Inl e \<Rightarrow> (Inl e, s)
      | Inr devices \<Rightarrow>
          (Inr devices,
           logged (AvailableDevices #
                   map (\<lambda>(i, d). DeviceLine i (name d) (max_output_channels d)
                                   (max_input_channels d)) (enumerate 0 devices)) s))"

text \<open>
  The statements that \<open>_try_wasapi\<close> and \<open>_try_stereo_mix\<close> share, inside their \<open>try\<close>:
  build the stream and assign it to \<open>self.stream\<close>, start it, query the device and store
  its name. The result is the exception that ended them, if any. The assignment to
  \<open>self.stream\<close> happens as soon as the constructor returns.
\<close>

definition open_stream :: "audio_env \<Rightarrow> InputStream \<Rightarrow> AudioCapture \<Rightarrow> exn option \<times> AudioCapture" where
  "open_stream env st s =
     (case new_InputStream env st of
        Some e \<Rightarrow> (Some e, s)
      | None \<Rightarrow>
          (let s1 = s\<lparr>stream := Some st\<rparr> in
           case stream_start env st of
             Some e \<Rightarrow> (Some e, s1)
           | None \<Rightarrow>
               (case query_device env (st_device st) of
                  Inl e \<Rightarrow> (Some e, s1)
                | Inr device_info \<Rightarrow> (None, s1\<lparr>device_name := name device_info\<rparr>))))"

definition wasapi_stream :: "ServerConfig \<Rightarrow> WasapiSettings option \<Rightarrow> nat \<Rightarrow> InputStream" where
  "wasapi_stream cfg ws idx =
     \<lparr>st_device = idx, st_samplerate = sample_rate cfg, st_channels = channels cfg,
      st_blocksize = block_size cfg, st_dtype = ''int16'', st_extra_settings = ws\<rparr>"

definition stereo_stream :: "ServerConfig \<Rightarrow> nat \<Rightarrow> InputStream" where
  "stereo_stream cfg idx =
     \<lparr>st_device = idx, st_samplerate = sample_rate cfg, st_channels = channels cfg,
      st_blocksize = block_size cfg, st_dtype = ''int16'', st_extra_settings = None\<rparr>"

text \<open>
  The inner \<open>try\<close> of \<open>_try_wasapi\<close>: an \<open>AttributeError\<close> of \<open>sd.WasapiSettings\<close> gives
  \<open>ws = None\<close>, any other exception goes to the outer handler.
\<close>

definition wasapi_settings :: "audio_env \<Rightarrow> exn + WasapiSettings option" where
  "wasapi_settings env =
     (case new_WasapiSettings env of
        Inr ws \<Rightarrow> Inr (Some ws)
      | Inl e \<Rightarrow> (if e = AttributeError then Inr None else Inl e))"

definition try_wasapi :: "audio_env \<Rightarrow> nat \<Rightarrow> AudioCapture \<Rightarrow> bool \<times> AudioCapture" where
  "try_wasapi env idx s =
     (let s0 = logged [TryingWasapi idx] s in
      case wasapi_settings env of
        Inl e \<Rightarrow> (False, logged [WasapiFailed idx e] s0)
      | Inr ws \<Rightarrow>
          (case open_stream env (wasapi_stream (config s0) ws idx) s0 of
             (Some e, s1) \<Rightarrow> (False, logged [WasapiFailed idx e] s1)
           | (None, s1) \<Rightarrow> (True, logged [WasapiSuccess idx (device_name s1)] s1)))"

text \<open>
  The body of the loop of \<open>_try_stereo_mix\<close>, one candidate: \<open>True\<close> when the method
  returns \<open>True\<close> there, \<open>False\<close> when the handler ran and the loop goes on.
\<close>

definition stereo_attempt :: "audio_env \<Rightarrow> nat \<Rightarrow> AudioCapture \<Rightarrow> bool \<times> AudioCapture" where
  "stereo_attempt env idx s =
     (let s0 = logged [TryingStereoMix idx] s in
      case open_stream env (stereo_stream (config s0) idx) s0 of
        (Some e, s1) \<Rightarrow> (False, logged [StereoMixFailed idx e] s1)
      | (None, s1) \<Rightarrow> (True, logged [StereoMixSuccess idx (device_name s1)] s1))"

fun try_stereo_mix :: "audio_env \<Rightarrow> nat list \<Rightarrow> AudioCapture \<Rightarrow> bool \<times> AudioCapture" where
  "try_stereo_mix env [] s = (False, s)"
| "try_stereo_mix env (idx # candidates) s =
     (case stereo_attempt env idx s of
        (True, s1) \<Rightarrow> (True, s1)
      | (False, s1) \<Rightarrow> try_stereo_mix env candidates s1)"

text \<open>The first loop of \<open>initialize\<close>, without the assignment of \<open>is_running\<close>.\<close>

fun wasapi_loop :: "audio_env \<Rightarrow> nat list \<Rightarrow> AudioCapture \<Rightarrow> bool \<times> AudioCapture" where
  "wasapi_loop env [] s = (False, s)"
| "wasapi_loop env (idx # out_candidates) s =
     (case try_wasapi env idx s of
        (True, s1) \<Rightarrow> (True, s1)
      | (False, s1) \<Rightarrow> wasapi_loop env out_candidates s1)"

definition out_candidates_of :: "device list \<Rightarrow> nat list" where
  "out_candidates_of devices =
     map fst (filter (\<lambda>(i, d). max_output_channels d > 0) (enumerate 0 devices))"

definition stereo_candidates_of :: "audio_env \<Rightarrow> device list \<Rightarrow> nat list" where
  "stereo_candidates_of env devices =
     map fst (filter (\<lambda>(i, d). str_contains ''stereo'' (str_lower env (name d))
                                \<or> max_input_channels d > 0) (enumerate 0 devices))"

definition initialize :: "audio_env \<Rightarrow> AudioCapture \<Rightarrow> (exn + bool) \<times> AudioCapture" where
  "initialize env s =
     (case list_devices env s of
        (Inl e, s0) \<Rightarrow> (Inl e, s0)
      | (Inr devices, s0) \<Rightarrow>
          (case wasapi_loop env (out_candidates_of devices) s0 of
             (True, s1) \<Rightarrow> (Inr True, s1\<lparr>is_running := True\<rparr>)
           | (False, s1) \<Rightarrow>
               (case try_stereo_mix env (stereo_candidates_of env devices)
                       (logged [TryingStereoMixFallback] s1) of
                  (True, s2) \<Rightarrow> (Inr True, s2\<lparr>is_running := True\<rparr>)
                | (False, s2) \<Rightarrow> (Inr False, logged [NoAudioSource] s2))))"

text \<open>\<open>frames.tobytes()\<close> of an \<open>int16\<close> array: row by row, each sample low byte first.\<close>

definition int16_bytes :: "16 word \<Rightarrow> bytes" where
  "int16_bytes w = [ucast w, ucast (drop_bit 8 w)]"

definition tobytes :: "16 word list list \<Rightarrow> bytes" where
  "tobytes frames = concat (map (\<lambda>row. concat (map int16_bytes row)) frames)"

text \<open>\<open>read_block\<close>: the \<open>except\<close> clause turns every exception of the read into \<open>None\<close>.\<close>

definition read_block :: "audio_env \<Rightarrow> AudioCapture \<Rightarrow> bytes option \<times> AudioCapture" where
  "read_block env s =
     (case stream s of
        None \<Rightarrow> (None, s)
      | Some st \<Rightarrow>
          (if \<not> is_running s then (None, s)
           else (case stream_read env st (block_size (config s)) of
                   Inl e \<Rightarrow> (None, logged [ErrorReading e] s)
                 | Inr (frames, overflowed) \<Rightarrow> (Some (tobytes frames), s))))"

text \<open>
  \<open>stop\<close>: \<open>close\<close> is skipped when \<open>stop\<close> raises; the \<open>finally\<close> clause runs in every
  case.
\<close>

definition stop :: "audio_env \<Rightarrow> AudioCapture \<Rightarrow> AudioCapture" where
  "stop env s =
     logged [CaptureStopped]
       (case stream s of
          None \<Rightarrow> s
        | Some st \<Rightarrow>
            (case stream_stop env st of
               Some e \<Rightarrow> logged [ErrorStopping e] s
             | None \<Rightarrow>
                 (case stream_close env st of
                    Some e \<Rightarrow> logged [ErrorStopping e] s
                  | None \<Rightarrow> s))
            \<lparr>stream := None, is_running := False\<rparr>)"

definition reinitialize :: "audio_env \<Rightarrow> AudioCapture \<Rightarrow> (exn + bool) \<times> AudioCapture" where
  "reinitialize env s = initialize env (stop env (logged [Reinitializing] s))"

record device_info =
  info_device :: string
  info_sample_rate :: pyval
  info_channels :: pyval
  info_is_running :: bool

definition get_device_info :: "AudioCapture \<Rightarrow> device_info" where
  "get_device_info s =
     \<lparr>info_device = device_name s, info_sample_rate = sample_rate (config s),
      info_channels = channels (config s), info_is_running = is_running s\<rparr>"


section \<open>Vocabulary of the properties\<close>

text \<open>
  Every state the class can reach satisfies \<open>AudioCapture_inv\<close>: \<open>is_running\<close> is set only
  after a stream was assigned, and \<open>stop\<close> clears both.
\<close>

definition AudioCapture_inv :: "AudioCapture \<Rightarrow> bool" where
  "AudioCapture_inv s = (is_running s \<longrightarrow> stream s \<noteq> None)"

text \<open>A probe of one candidate succeeds when all three library calls return.\<close>

definition probe_ok :: "audio_env \<Rightarrow> InputStream \<Rightarrow> bool" where
  "probe_ok env st =
     (new_InputStream env st = None \<and> stream_start env st = None
      \<and> (case query_device env (st_device st) of Inl e \<Rightarrow> False | Inr d \<Rightarrow> True))"

definition wasapi_ok :: "audio_env \<Rightarrow> ServerConfig \<Rightarrow> nat \<Rightarrow> bool" where
  "wasapi_ok env cfg idx =
     (case wasapi_settings env of
        Inl e \<Rightarrow> False
      | Inr ws \<Rightarrow> probe_ok env (wasapi_stream cfg ws idx))"

definition stereo_ok :: "audio_env \<Rightarrow> ServerConfig \<Rightarrow> nat \<Rightarrow> bool" where
  "stereo_ok env cfg idx = probe_ok env (stereo_stream cfg idx)"

text \<open>The streams whose construction the two strategies ask for, in order.\<close>

definition wasapi_requests :: "audio_env \<Rightarrow> ServerConfig \<Rightarrow> nat list \<Rightarrow> InputStream list" where
  "wasapi_requests env cfg idxs =
     (case wasapi_settings env of
        Inl e \<Rightarrow> []
      | Inr ws \<Rightarrow> map (wasapi_stream cfg ws) idxs)"

definition probe_requests :: "audio_env \<Rightarrow> ServerConfig \<Rightarrow> device list \<Rightarrow> InputStream list" where
  "probe_requests env cfg devices =
     wasapi_requests env cfg (out_candidates_of devices)
     @ map (stereo_stream cfg) (stereo_candidates_of env devices)"

text \<open>
  The handle left by a run of requests: the last stream whose constructor returned, or the
  handle from before when none did.
\<close>

definition final_handle ::
  "audio_env \<Rightarrow> InputStream option \<Rightarrow> InputStream list \<Rightarrow> InputStream option" where
  "final_handle env h sts =
     foldl (\<lambda>h st. if new_InputStream env st = None then Some st else h) h sts"

text \<open>The elements of a list up to and including the first that satisfies \<open>P\<close>.\<close>

definition upto_first :: "('a \<Rightarrow> bool) \<Rightarrow> 'a list \<Rightarrow> 'a list" where
  "upto_first P xs = takeWhile (\<lambda>x. \<not> P x) xs @ take 1 (dropWhile (\<lambda>x. \<not> P x) xs)"

text \<open>The log records that announce a probe, and those that report an opened device.\<close>

fun is_probe :: "ac_log \<Rightarrow> bool" where
  "is_probe (TryingWasapi idx) = True"
| "is_probe (TryingStereoMix idx) = True"
| "is_probe r = False"

fun is_success :: "ac_log \<Rightarrow> bool" where
  "is_success (WasapiSuccess idx nm) = True"
| "is_success (StereoMixSuccess idx nm) = True"
| "is_success r = False"

definition new_records :: "AudioCapture \<Rightarrow> AudioCapture \<Rightarrow> ac_log list" where
  "new_records s s' = drop (length (ac_logger s)) (ac_logger s')"

text \<open>
  The contract of \<open>InputStream.read(frames)\<close> in \<open>sounddevice\<close>: a read that returns gives
  an array of \<open>frames\<close> rows with one column per channel of the stream.
\<close>

definition read_contract :: "audio_env \<Rightarrow> bool" where
  "read_contract env =
     (\<forall>st n frames overflowed.
        stream_read env st n = Inr (frames, overflowed) \<longrightarrow>
        (\<exists>k c. as_int n = Some k \<and> as_int (st_channels st) = Some c
               \<and> int (length frames) = k \<and> (\<forall>row \<in> set frames. int (length row) = c)))"

section \<open>Example inputs\<close>

definition ex_ws :: "string \<Rightarrow> int \<Rightarrow> WebSocketServerProtocol" where
  "ex_ws host port = \<lparr>remote_address = (host, port), ws_ident = nat port\<rparr>"

definition ex_ws_again :: WebSocketServerProtocol where
  "ex_ws_again = \<lparr>remote_address = (''h'', 1), ws_ident = 7\<rparr>"

definition ex_net :: net_env where
  "ex_net = \<lparr>ws_send = (\<lambda>ws data. if ws_ident ws = 2 then Some ConnectionClosed else None),
             ws_close = (\<lambda>ws code reason. Some ConnectionClosed),
             datetime_now = (\<lambda>n. 1000 + int n)\<rparr>"

definition ex_one :: ConnectionManager where
  "ex_one = snd (add_client ex_net (ex_ws ''h'' 1) ConnectionManager_init)"

definition ex_manager :: ConnectionManager where
  "ex_manager =
     snd (add_client ex_net (ex_ws ''h'' 3)
       (snd (add_client ex_net (ex_ws ''h'' 2)
         (snd (add_client ex_net (ex_ws ''h'' 1) ConnectionManager_init)))))"

definition ascii_lower :: "char \<Rightarrow> char" where
  "ascii_lower c =
     (let n = (of_char c :: nat) in if 65 \<le> n \<and> n \<le> 90 then char_of (n + 32) else c)"


definition ex_devices :: "device list" where
  "ex_devices =
     [\<lparr>name = ''Speakers'', max_input_channels = 0, max_output_channels = 2\<rparr>,
      \<lparr>name = ''Headphones'', max_input_channels = 0, max_output_channels = 2\<rparr>,
      \<lparr>name = ''Stereo Mix'', max_input_channels = 2, max_output_channels = 0\<rparr>]"

definition ex_audio ::
  "device list \<Rightarrow> (InputStream \<Rightarrow> exn option) \<Rightarrow> (InputStream \<Rightarrow> exn option) \<Rightarrow> audio_env" where
  "ex_audio devices new start =
     \<lparr>query_devices = Inr devices,
      query_device = (\<lambda>i. if i < length devices then Inr (devices ! i)
                           else Inl (PortAudioError ''Error querying device'')),
      new_WasapiSettings = Inr WasapiLoopback,
      new_InputStream = new,
      stream_start = start,
      stream_stop = (\<lambda>st. None),
      stream_close = (\<lambda>st. Some (PortAudioError ''Error closing stream'')),
      stream_read = (\<lambda>st n.
         case (as_int n, as_int (st_channels st)) of
           (Some k, Some c) \<Rightarrow>
             if 0 \<le> k \<and> 0 \<le> c then Inr (replicate (nat k) (replicate (nat c) 0), False)
             else Inl (PortAudioError ''Error reading stream'')
         | _ \<Rightarrow> Inl TypeError),
      str_lower = map ascii_lower\<rparr>"

text \<open>Every stream is built, none starts.\<close>

definition ex_audio_no_start :: audio_env where
  "ex_audio_no_start =
     ex_audio ex_devices (\<lambda>st. None) (\<lambda>st. Some (PortAudioError ''Error starting stream''))"

text \<open>The first device refuses every stream, the others open.\<close>

definition ex_audio_second :: audio_env where
  "ex_audio_second =
     ex_audio ex_devices
       (\<lambda>st. if st_device st = 0 then Some (PortAudioError ''Error opening InputStream'') else None)
       (\<lambda>st. None)"

text \<open>No device at all.\<close>

definition ex_audio_empty :: audio_env where
  "ex_audio_empty = ex_audio [] (\<lambda>st. None) (\<lambda>st. None)"

definition ex_capture :: AudioCapture where
  "ex_capture = AudioCapture_init ServerConfig_default"





section \<open>Dictionaries\<close>


lemma dict_has_Nil: "dict_has [] k = False"
  by (simp add: dict_has_def dict_keys_def)

lemma dict_has_Cons: "dict_has ((k', v) # d) k = (k' = k \<or> dict_has d k)"
  by (auto simp: dict_has_def dict_keys_def)

lemma dict_keys_Nil: "dict_keys [] = []"
  by (simp add: dict_keys_def)

lemma dict_keys_Cons: "dict_keys ((k, v) # d) = k # dict_keys d"
  by (simp add: dict_keys_def)

lemma dict_ok_Cons: "dict_ok ((k, v) # d) = (\<not> dict_has d k \<and> dict_ok d)"
  by (simp add: dict_ok_def dict_has_def dict_keys_Cons)

lemma dict_get_Nil: "dict_get [] k = None"
  by (simp add: dict_get_def)

lemma dict_get_Cons: "dict_get ((k', v) # d) k = (if k' = k then Some v else dict_get d k)"
  by (auto simp: dict_get_def)

lemmas dict_simps =
  dict_has_Nil dict_has_Cons dict_keys_Nil dict_keys_Cons dict_ok_Cons dict_get_Nil dict_get_Cons

lemma dict_has_keys: "dict_has d k = (k \<in> set (dict_keys d))"
  by (simp add: dict_has_def)

lemma dict_has_get: "dict_has d k = (dict_get d k \<noteq> None)"
  by (induction d) (auto simp: dict_simps)

lemma dict_get_mem: "dict_get d k = Some v \<Longrightarrow> (k, v) \<in> set d"
  by (induction d) (auto simp: dict_simps split: if_splits)

lemma dict_mem_get: "dict_ok d \<Longrightarrow> (k, v) \<in> set d \<Longrightarrow> dict_get d k = Some v"
  by (induction d) (auto simp: dict_simps dict_has_get dest: dict_get_mem)

lemma dict_set_keys:
  "dict_keys (dict_set d k v) = (if dict_has d k then dict_keys d else dict_keys d @ [k])"
  by (induction d) (auto simp: dict_simps)

lemma dict_set_length:
  "length (dict_set d k v) = (if dict_has d k then length d else Suc (length d))"
  by (induction d) (auto simp: dict_simps)

lemma dict_set_get: "dict_get (dict_set d k v) k' = (if k' = k then Some v else dict_get d k')"
  by (induction d) (auto simp: dict_simps)

lemma dict_del_keys: "dict_keys (dict_del d k) = remove1 k (dict_keys d)"
  by (induction d) (auto simp: dict_simps)

lemma dict_del_length:
  "length (dict_del d k) = (if dict_has d k then length d - 1 else length d)"
proof (induction d)
  case Nil
  then show ?case by (simp add: dict_simps)
next
  case (Cons a d)
  obtain k' v' where a: "a = (k', v')" by (cases a)
  have "dict_has d k \<Longrightarrow> 0 < length d" by (cases d) (auto simp: dict_simps)
  with Cons a show ?case by (auto simp: dict_simps)
qed

lemma dict_del_get:
  "dict_ok d \<Longrightarrow> dict_get (dict_del d k) k' = (if k' = k then None else dict_get d k')"
proof (induction d)
  case Nil
  then show ?case by (simp add: dict_simps)
next
  case (Cons a d)
  obtain k0 v0 where a: "a = (k0, v0)" by (cases a)
  with Cons show ?case
    by (auto simp: dict_simps dict_has_get)
qed

lemma dict_set_ok: "dict_ok d \<Longrightarrow> dict_ok (dict_set d k v)"
  by (simp add: dict_ok_def dict_set_keys dict_has_def)

lemma dict_del_ok: "dict_ok d \<Longrightarrow> dict_ok (dict_del d k)"
  by (simp add: dict_ok_def dict_del_keys)

section \<open>The session registry\<close>

lemma sweep_keys:
  "set (dict_keys items) \<subseteq> set (dict_keys (clients m)) \<Longrightarrow>
   dict_keys (clients (fst (broadcast_sweep env data items m failed))) = dict_keys (clients m)"
proof (induction items arbitrary: m failed)
  case Nil
  then show ?case by simp
next
  case (Cons it items)
  obtain cid ci where it: "it = (cid, ci)" by (cases it)
  from Cons.prems it have has: "dict_has (clients m) cid" and sub: "set (dict_keys items) \<subseteq> set (dict_keys (clients m))"
    by (auto simp: dict_has_def dict_keys_def)
  show ?case
  proof (cases "ws_send env (websocket ci) data")
    case None
    then show ?thesis using it has sub
      by (simp add: Cons.IH dict_set_keys)
  next
    case (Some e)
    then show ?thesis using it sub
      by (simp add: Cons.IH)
  qed
qed

lemma sweep_failed:
  "snd (broadcast_sweep env data items m failed) =
   failed @ map fst (filter (\<lambda>(cid, ci). ws_send env (websocket ci) data \<noteq> None) items)"
  by (induction items arbitrary: m failed) (auto split: option.splits)

lemma sweep_wire:
  "wire (fst (broadcast_sweep env data items m failed)) =
   wire m @ map (\<lambda>(cid, ci). Send (websocket ci) data) items"
  by (induction items arbitrary: m failed) (auto split: option.splits)

lemma sweep_total_served:
  "total_served (fst (broadcast_sweep env data items m failed)) = total_served m"
  by (induction items arbitrary: m failed) (auto split: option.splits)

lemma sweep_get_other:
  "cid \<notin> set (dict_keys items) \<Longrightarrow>
   dict_get (clients (fst (broadcast_sweep env data items m failed))) cid = dict_get (clients m) cid"
  by (induction items arbitrary: m failed) (auto split: option.splits simp: dict_keys_def dict_set_get)

lemma sweep_get_sent:
  "dict_ok items \<Longrightarrow> (cid, ci) \<in> set items \<Longrightarrow> ws_send env (websocket ci) data = None \<Longrightarrow>
   \<exists>t. dict_get (clients (fst (broadcast_sweep env data items m failed))) cid =
        Some (ci\<lparr>packets_sent := packets_sent ci + 1, last_activity := t\<rparr>)"
proof (induction items arbitrary: m failed)
  case Nil
  then show ?case by simp
next
  case (Cons it items)
  obtain cid' ci' where it: "it = (cid', ci')" by (cases it)
  from Cons.prems it have ok: "dict_ok items" and notin: "cid' \<notin> set (dict_keys items)"
    by (auto simp: dict_ok_def dict_keys_def)
  show ?case
  proof (cases "(cid, ci) \<in> set items")
    case True
    from Cons.IH [OF ok True Cons.prems(3)] show ?thesis
      using it by (auto split: option.splits)
  next
    case False
    with Cons.prems it have eq: "cid' = cid" "ci' = ci" by auto
    with notin have "cid \<notin> set (dict_keys items)" by simp
    then show ?thesis using it eq Cons.prems(3)
      by (auto simp: sweep_get_other dict_set_get)
  qed
qed

lemma sweep_get_failed:
  "dict_ok items \<Longrightarrow> (cid, ci) \<in> set items \<Longrightarrow> ws_send env (websocket ci) data \<noteq> None \<Longrightarrow>
   dict_get (clients (fst (broadcast_sweep env data items m failed))) cid = dict_get (clients m) cid"
proof (induction items arbitrary: m failed)
  case Nil
  then show ?case by simp
next
  case (Cons it items)
  obtain cid' ci' where it: "it = (cid', ci')" by (cases it)
  from Cons.prems it have ok: "dict_ok items" and notin: "cid' \<notin> set (dict_keys items)"
    by (auto simp: dict_ok_def dict_keys_def)
  show ?case
  proof (cases "(cid, ci) \<in> set items")
    case True
    then have "cid \<in> set (dict_keys items)" by (force simp: dict_keys_def)
    with notin have "cid' \<noteq> cid" by auto
    with Cons.IH [OF ok True Cons.prems(3)] show ?thesis
      using it by (auto split: option.splits simp: dict_set_get)
  next
    case False
    with Cons.prems it have eq: "cid' = cid" "ci' = ci" by auto
    with notin have "cid \<notin> set (dict_keys items)" by simp
    then show ?thesis using it eq Cons.prems(3)
      by (auto simp: sweep_get_other)
  qed
qed



lemma filter_key_single:
  "dict_ok d \<Longrightarrow> dict_has d k \<Longrightarrow> map fst (filter (\<lambda>(cid, ci). cid = k) d) = [k]"
proof (induction d)
  case Nil
  then show ?case by (simp add: dict_simps)
next
  case (Cons a d)
  obtain k' v' where a: "a = (k', v')" by (cases a)
  show ?case
  proof (cases "k' = k")
    case True
    with Cons.prems a have "\<not> dict_has d k" by (simp add: dict_simps)
    then have "filter (\<lambda>(cid, ci). cid = k) d = []"
      by (force simp: filter_empty_conv dict_has_def dict_keys_def)
    with True a show ?thesis by simp
  next
    case False
    with Cons a show ?thesis by (simp add: dict_simps)
  qed
qed

lemma remove_client_wire: "wire (remove_client cid m) = wire m"
  by (simp add: remove_client_def)

lemma remove_client_total_served: "total_served (remove_client cid m) = total_served m"
  by (simp add: remove_client_def)

lemma dict_del_absent: "\<not> dict_has d k \<Longrightarrow> dict_del d k = d"
  by (induction d) (auto simp: dict_simps)

lemma remove_client_clients:
  "clients (remove_client cid m) = dict_del (clients m) cid"
  by (simp add: remove_client_def dict_del_absent)

text \<open>
  Claim C1. When the send of exactly one registered session \<open>k\<close> raises during
  \<open>broadcast\<close>: every other session is still registered, with its sent counter one
  higher and its other fields but the last-activity time as they were; \<open>k\<close> is gone and
  the connected count is one lower. The sweep itself removes nothing (its result has the
  same keys, holds \<open>k\<close> unchanged and names exactly \<open>k\<close> as failed), and a send was
  attempted on every session, in order.
\<close>

theorem broadcast_one_failure:
  assumes ok: "dict_ok (clients m)"
      and k: "dict_get (clients m) k = Some ck"
      and only_k: "\<forall>(cid, ci) \<in> set (clients m). (ws_send env (websocket ci) data \<noteq> None) = (cid = k)"
  shows "(\<forall>cid ci. cid \<noteq> k \<and> dict_get (clients m) cid = Some ci \<longrightarrow>
            (\<exists>t. dict_get (clients (broadcast env data m)) cid =
                    Some (ci\<lparr>packets_sent := packets_sent ci + 1, last_activity := t\<rparr>)))
       \<and> dict_get (clients (broadcast env data m)) k = None
       \<and> dict_keys (clients (broadcast env data m)) = remove1 k (dict_keys (clients m))
       \<and> connected_count (broadcast env data m) + 1 = connected_count m
       \<and> total_served (broadcast env data m) = total_served m
       \<and> (case broadcast_sweep env data (clients m) m [] of
            (m', failed_clients) \<Rightarrow>
              dict_keys (clients m') = dict_keys (clients m)
              \<and> dict_get (clients m') k = Some ck
              \<and> failed_clients = [k])
       \<and> wire (broadcast env data m) =
            wire m @ map (\<lambda>(cid, ci). Send (websocket ci) data) (clients m)"
proof -
  define m' where "m' = fst (broadcast_sweep env data (clients m) m [])"
  define failed where "failed = snd (broadcast_sweep env data (clients m) m [])"
  have sw: "broadcast_sweep env data (clients m) m [] = (m', failed)"
    by (simp add: m'_def failed_def)
  have has: "dict_has (clients m) k" using k by (simp add: dict_has_get)
  have mem: "(k, ck) \<in> set (clients m)" using k by (rule dict_get_mem)
  have "filter (\<lambda>(cid, ci). ws_send env (websocket ci) data \<noteq> None) (clients m) =
        filter (\<lambda>(cid, ci). cid = k) (clients m)"
    using only_k by (intro filter_cong) auto
  then have failed: "failed = [k]"
    using filter_key_single [OF ok has] by (simp add: failed_def sweep_failed)
  have keys: "dict_keys (clients m') = dict_keys (clients m)"
    unfolding m'_def by (rule sweep_keys) simp
  have ok': "dict_ok (clients m')" using ok keys by (simp add: dict_ok_def)
  have kfail: "ws_send env (websocket ck) data \<noteq> None" using only_k mem by auto
  have getk: "dict_get (clients m') k = Some ck"
    unfolding m'_def using sweep_get_failed [OF ok mem kfail] k by simp
  have res: "broadcast env data m = remove_client k m'"
    by (simp add: broadcast_def sw failed)
  have cl: "clients (broadcast env data m) = dict_del (clients m') k"
    by (simp add: res remove_client_clients)
  have others: "\<exists>t. dict_get (clients (broadcast env data m)) cid =
                    Some (ci\<lparr>packets_sent := packets_sent ci + 1, last_activity := t\<rparr>)"
    if "cid \<noteq> k" and "dict_get (clients m) cid = Some ci" for cid ci
  proof -
    from that(2) have in_m: "(cid, ci) \<in> set (clients m)" by (rule dict_get_mem)
    with only_k that(1) have "ws_send env (websocket ci) data = None" by auto
    from sweep_get_sent [OF ok in_m this, of m "[]"] obtain t where
      "dict_get (clients m') cid = Some (ci\<lparr>packets_sent := packets_sent ci + 1, last_activity := t\<rparr>)"
      by (auto simp: m'_def)
    then show ?thesis using that(1) by (auto simp: cl dict_del_get [OF ok'])
  qed
  have gone: "dict_get (clients (broadcast env data m)) k = None"
    by (simp add: cl dict_del_get [OF ok'])
  have keys_after: "dict_keys (clients (broadcast env data m)) = remove1 k (dict_keys (clients m))"
    by (simp add: cl dict_del_keys keys)
  have "0 < length (clients m)" using mem by (cases "clients m") auto
  moreover have "length (clients m') = length (clients m)"
    using keys by (simp add: dict_keys_def) (metis length_map)
  moreover have "dict_has (clients m') k" using has keys by (simp add: dict_has_def)
  ultimately have count: "connected_count (broadcast env data m) + 1 = connected_count m"
    by (simp add: connected_count_def get_stats_def cl dict_del_length)
  have served: "total_served (broadcast env data m) = total_served m"
    by (simp add: res remove_client_total_served m'_def sweep_total_served)
  have w: "wire (broadcast env data m) =
             wire m @ map (\<lambda>(cid, ci). Send (websocket ci) data) (clients m)"
    by (simp add: res remove_client_wire m'_def sweep_wire)
  from others gone keys_after count served keys getk failed w show ?thesis
    by (simp add: sw)
qed

lemma ex_manager_eval:
  "ex_manager =
     \<lparr>clients =
        [(''h:1'', \<lparr>websocket = ex_ws ''h'' 1, connected_at = 1000, last_activity = 1000,
                   address = ''h:1'', packets_sent = 0\<rparr>),
         (''h:2'', \<lparr>websocket = ex_ws ''h'' 2, connected_at = 1001, last_activity = 1001,
                   address = ''h:2'', packets_sent = 0\<rparr>),
         (''h:3'', \<lparr>websocket = ex_ws ''h'' 3, connected_at = 1002, last_activity = 1002,
                   address = ''h:3'', packets_sent = 0\<rparr>)],
      total_served = 3,
      cm_logger = [ClientConnected ''h:1'', ClientConnected ''h:2'', ClientConnected ''h:3''],
      wire = [], clock_reads = 3\<rparr>"
  by (simp add: ex_manager_def add_client_def ConnectionManager_init_def client_id_of_def
      ex_ws_def ex_net_def str_int_def str_nat.simps digit_char_def Let_def)

lemma ex_manager_clients:
  "clients ex_manager =
     [(''h:1'', \<lparr>websocket = ex_ws ''h'' 1, connected_at = 1000, last_activity = 1000,
                address = ''h:1'', packets_sent = 0\<rparr>),
      (''h:2'', \<lparr>websocket = ex_ws ''h'' 2, connected_at = 1001, last_activity = 1001,
                address = ''h:2'', packets_sent = 0\<rparr>),
      (''h:3'', \<lparr>websocket = ex_ws ''h'' 3, connected_at = 1002, last_activity = 1002,
                address = ''h:3'', packets_sent = 0\<rparr>)]"
  by (simp add: ex_manager_eval)

theorem broadcast_one_failure_witness:
  "dict_ok (clients ex_manager)
   \<and> dict_get (clients ex_manager) ''h:2'' \<noteq> None
   \<and> list_all (\<lambda>(cid, ci). (ws_send ex_net (websocket ci) [1, 2, 3, 4] \<noteq> None) = (cid = ''h:2''))
         (clients ex_manager)
   \<and> connected_count ex_manager = 3
   \<and> connected_count (broadcast ex_net [1, 2, 3, 4] ex_manager) = 2
   \<and> dict_keys (clients (broadcast ex_net [1, 2, 3, 4] ex_manager)) = [''h:1'', ''h:3'']"
proof -
  have ok: "dict_ok (clients ex_manager)"
    by (simp add: ex_manager_clients dict_ok_def dict_keys_def)
  have k: "dict_get (clients ex_manager) ''h:2'' =
             Some \<lparr>websocket = ex_ws ''h'' 2, connected_at = 1001, last_activity = 1001,
                   address = ''h:2'', packets_sent = 0\<rparr>"
    by (simp add: ex_manager_clients dict_get_def)
  have only: "\<forall>(cid, ci) \<in> set (clients ex_manager).
         (ws_send ex_net (websocket ci) [1, 2, 3, 4] \<noteq> None) = (cid = ''h:2'')"
    by (simp add: ex_manager_clients ex_net_def ex_ws_def)
  have n: "connected_count ex_manager = 3"
    by (simp add: connected_count_def get_stats_def ex_manager_clients)
  from broadcast_one_failure [OF ok k only] ok k only n show ?thesis
    by (simp add: ex_manager_clients dict_keys_def)
qed



lemma close_each_clients: "clients (close_each env reason items m) = clients m"
  by (induction items arbitrary: m) (auto split: option.splits)

lemma close_each_total_served: "total_served (close_each env reason items m) = total_served m"
  by (induction items arbitrary: m) (auto split: option.splits)

lemma close_each_wire:
  "wire (close_each env reason items m) =
   wire m @ map (\<lambda>(cid, ci). Close (websocket ci) 1001 reason) items"
  by (induction items arbitrary: m) (auto split: option.splits)

lemma close_each_logger:
  "cm_logger (close_each env reason items m) =
   cm_logger m @ concat (map (\<lambda>(cid, ci). case ws_close env (websocket ci) 1001 reason of
                                None \<Rightarrow> [] | Some e \<Rightarrow> [ErrorClosing cid e]) items)"
  by (induction items arbitrary: m) (auto split: option.splits)

lemma close_all_total_served: "total_served (close_all env reason m) = total_served m"
  by (simp add: close_all_def Let_def close_each_total_served)

text \<open>
  Claim C2. After \<open>close_all\<close> the registry is empty, whatever the close calls do: a close
  with code 1001 and the reason was attempted on every session, in order, and each close
  that raised left one log record and nothing else.
\<close>

theorem close_all_empties_registry:
  "clients (close_all env reason m) = []
   \<and> connected_count (close_all env reason m) = 0
   \<and> total_served (close_all env reason m) = total_served m
   \<and> wire (close_all env reason m) =
       wire m @ map (\<lambda>(cid, ci). Close (websocket ci) 1001 reason) (clients m)
   \<and> cm_logger (close_all env reason m) =
       cm_logger m @ ClosingAll reason #
         concat (map (\<lambda>(cid, ci). case ws_close env (websocket ci) 1001 reason of
                        None \<Rightarrow> [] | Some e \<Rightarrow> [ErrorClosing cid e]) (clients m))"
  by (simp add: close_all_def Let_def connected_count_def get_stats_def
      close_each_total_served close_each_wire close_each_logger)

theorem close_all_empties_registry_witness:
  "connected_count ex_manager = 3
   \<and> list_all (\<lambda>(cid, ci). ws_close ex_net (websocket ci) 1001 ''bye'' \<noteq> None)
         (clients ex_manager)
   \<and> connected_count (close_all ex_net ''bye'' ex_manager) = 0
   \<and> length (wire (close_all ex_net ''bye'' ex_manager)) = 3"
  using close_all_empties_registry [of ex_net "''bye''" ex_manager]
  by (simp add: connected_count_def get_stats_def ex_manager_eval ex_net_def)

lemma remove_failed_total_served: "total_served (remove_failed ks m) = total_served m"
  by (induction ks arbitrary: m) (auto simp: remove_client_total_served)

lemma broadcast_total_served: "total_served (broadcast env data m) = total_served m"
  by (simp add: broadcast_def split_beta remove_failed_total_served sweep_total_served)

lemma ex_one_eval:
  "ex_one =
     \<lparr>clients = [(''h:1'', \<lparr>websocket = ex_ws ''h'' 1, connected_at = 1000,
                  last_activity = 1000, address = ''h:1'', packets_sent = 0\<rparr>)],
      total_served = 1, cm_logger = [ClientConnected ''h:1''], wire = [], clock_reads = 1\<rparr>"
  by (simp add: ex_one_def add_client_def ConnectionManager_init_def client_id_of_def
      ex_ws_def ex_net_def str_int_def str_nat.simps digit_char_def Let_def)

lemma ex_one_clients:
  "clients ex_one =
     [(''h:1'', \<lparr>websocket = ex_ws ''h'' 1, connected_at = 1000, last_activity = 1000,
                address = ''h:1'', packets_sent = 0\<rparr>)]"
  by (simp add: ex_one_eval)

lemma client_id_ex_ws_1: "client_id_of (ex_ws ''h'' 1) = ''h:1''"
  by (simp add: client_id_of_def ex_ws_def str_int_def str_nat.simps digit_char_def)

text \<open>
  Claim C5 fails for an identity that is already registered: the add overwrites the
  session, the remove deletes it, and the connected count ends one lower than before.
\<close>

theorem add_remove_present_counterexample:
  "connected_count
     (remove_client (fst (add_client ex_net (ex_ws ''h'' 1) ex_one))
        (snd (add_client ex_net (ex_ws ''h'' 1) ex_one)))
   \<noteq> connected_count ex_one"
  by (simp add: connected_count_def get_stats_def add_client_def remove_client_def Let_def
      client_id_ex_ws_1 ex_one_clients dict_has_def dict_keys_def)

text \<open>
  Claim C5, amended. \<open>add_client\<close> followed by \<open>remove_client\<close> of the returned identity
  leaves the connected count as before the add when the identity was not registered, and
  one lower when it was; \<open>total_served\<close> is one higher. No operation of the registry
  lowers \<open>total_served\<close>: \<open>add_client\<close> adds one, the others keep it.
\<close>

theorem add_then_remove:
  "(case add_client env ws m of
      (client_id, m1) \<Rightarrow>
        client_id = client_id_of ws
        \<and> connected_count (remove_client client_id m1) =
            (if dict_has (clients m) (client_id_of ws) then connected_count m - 1
             else connected_count m)
        \<and> total_served (remove_client client_id m1) = total_served m + 1)
   \<and> total_served (snd (add_client env ws m)) = total_served m + 1
   \<and> total_served (remove_client cid m) = total_served m
   \<and> total_served (broadcast env data m) = total_served m
   \<and> total_served (close_all env reason m) = total_served m"
proof -
  have "dict_has (dict_set (clients m) (client_id_of ws) v) (client_id_of ws)" for v
    by (simp add: dict_has_get dict_set_get)
  then show ?thesis
    by (simp add: add_client_def Let_def remove_client_total_served broadcast_total_served
        close_all_total_served connected_count_def get_stats_def remove_client_clients
        dict_del_length dict_set_length)
qed

theorem add_then_remove_witness:
  "\<not> dict_has (clients ex_one) (client_id_of (ex_ws ''h'' 2))
   \<and> connected_count ex_one = 1
   \<and> total_served ex_one = 1
   \<and> (case add_client ex_net (ex_ws ''h'' 2) ex_one of
        (client_id, m1) \<Rightarrow> connected_count m1 = 2
          \<and> connected_count (remove_client client_id m1) = 1
          \<and> total_served (remove_client client_id m1) = 2)"
  using add_then_remove [where env = ex_net and ws = "ex_ws ''h'' 2" and m = ex_one]
  by (simp add: connected_count_def get_stats_def add_client_def remove_client_def Let_def
      ex_one_clients dict_has_def dict_keys_def client_id_of_def ex_ws_def str_int_def
      str_nat.simps digit_char_def ex_one_eval)

text \<open>
  Claim C10. \<open>add_client\<close> with an identity that is already registered replaces the
  session stored under it by a fresh one holding the new handle; the other sessions, the
  keys and the connected count stay as they were, \<open>total_served\<close> is one higher, no
  transport call is made (the old handle is not closed) and the only log record written
  is the one of the connection.
\<close>

theorem add_client_overwrites:
  assumes "dict_get (clients m) (client_id_of ws) = Some old"
  shows "(case add_client env ws m of
       (client_id, m') \<Rightarrow>
         client_id = client_id_of ws
         \<and> dict_get (clients m') client_id =
             Some \<lparr>websocket = ws, connected_at = datetime_now env (clock_reads m),
                   last_activity = datetime_now env (clock_reads m),
                   address = client_id, packets_sent = 0\<rparr>
         \<and> (\<forall>other. other \<noteq> client_id \<longrightarrow>
               dict_get (clients m') other = dict_get (clients m) other)
         \<and> dict_keys (clients m') = dict_keys (clients m)
         \<and> connected_count m' = connected_count m
         \<and> total_served m' = total_served m + 1
         \<and> wire m' = wire m
         \<and> cm_logger m' = cm_logger m @ [ClientConnected client_id])"
  using assms
  by (simp add: add_client_def Let_def dict_set_get dict_set_keys dict_set_length dict_has_get
      connected_count_def get_stats_def)

theorem add_client_overwrites_witness:
  "dict_get (clients ex_one) (client_id_of ex_ws_again) =
     Some \<lparr>websocket = ex_ws ''h'' 1, connected_at = 1000, last_activity = 1000,
           address = ''h:1'', packets_sent = 0\<rparr>
   \<and> ex_ws ''h'' 1 \<noteq> ex_ws_again
   \<and> map (websocket \<circ> snd) (clients (snd (add_client ex_net ex_ws_again ex_one))) = [ex_ws_again]
   \<and> connected_count (snd (add_client ex_net ex_ws_again ex_one)) = connected_count ex_one
   \<and> total_served (snd (add_client ex_net ex_ws_again ex_one)) = total_served ex_one + 1
   \<and> wire (snd (add_client ex_net ex_ws_again ex_one)) = wire ex_one"
proof -
  have id: "client_id_of ex_ws_again = ''h:1''"
    by (simp add: client_id_of_def ex_ws_again_def str_int_def str_nat.simps digit_char_def)
  have old: "dict_get (clients ex_one) (client_id_of ex_ws_again) =
     Some \<lparr>websocket = ex_ws ''h'' 1, connected_at = 1000, last_activity = 1000,
           address = ''h:1'', packets_sent = 0\<rparr>"
    by (simp add: id ex_one_clients dict_get_def)
  have cl: "clients (snd (add_client ex_net ex_ws_again ex_one)) =
     [(''h:1'', \<lparr>websocket = ex_ws_again, connected_at = 1001, last_activity = 1001,
                address = ''h:1'', packets_sent = 0\<rparr>)]"
    by (simp add: add_client_def Let_def id ex_one_eval ex_net_def)
  have ne: "ex_ws ''h'' 1 \<noteq> ex_ws_again"
    by (simp add: ex_ws_def ex_ws_again_def)
  from add_client_overwrites [OF old, where env = ex_net] old cl ne show ?thesis
    by (simp add: split_beta)
qed

section \<open>The configuration\<close>




lemma default_invariant: "capture_invariant ServerConfig_default"
  by (simp add: capture_invariant_def ServerConfig_default_def py_in_ints_def
      valid_sample_rates_def py_between_def)





lemma well_typed_iff:
  "well_typed c = (\<exists>h w r ch b l. http_port c = PyInt h \<and> ws_port c = PyInt w
      \<and> sample_rate c = PyInt r \<and> channels c = PyInt ch \<and> block_size c = PyInt b
      \<and> log_level c = PyStr l)"
  by (auto simp: well_typed_def split: pyval.splits)





lemma well_typed_numbers:
  "well_typed cfg \<Longrightarrow>
   is_number (block_size cfg) \<and> is_number (http_port cfg) \<and> is_number (ws_port cfg)
   \<and> (\<exists>level. log_level cfg = PyStr level)"
  by (auto simp: well_typed_iff)










section \<open>The device source\<close>

lemma logged_fields:
  "config (logged r s) = config s" "stream (logged r s) = stream s"
  "is_running (logged r s) = is_running s" "device_name (logged r s) = device_name s"
  "ac_logger (logged r s) = ac_logger s @ r"
  by (simp_all add: logged_def)

lemma open_stream_ok: "(fst (open_stream env st s) = None) = probe_ok env st"
  by (simp add: open_stream_def probe_ok_def Let_def split: option.splits sum.splits)

lemma open_stream_fields:
  "config (snd (open_stream env st s)) = config s"
  "is_running (snd (open_stream env st s)) = is_running s"
  "ac_logger (snd (open_stream env st s)) = ac_logger s"
  by (simp_all add: open_stream_def Let_def split: option.splits sum.splits)

lemma open_stream_stream:
  "stream (snd (open_stream env st s)) =
     (if new_InputStream env st = None then Some st else stream s)"
  by (simp add: open_stream_def Let_def split: option.splits sum.splits)

lemma open_stream_name:
  "device_name (snd (open_stream env st s)) =
     (if probe_ok env st then (case query_device env (st_device st) of Inr d \<Rightarrow> name d | Inl e \<Rightarrow> device_name s)
      else device_name s)"
  by (simp add: open_stream_def probe_ok_def Let_def split: option.splits sum.splits)

lemma final_handle_Nil: "final_handle env h [] = h"
  by (simp add: final_handle_def)

lemma final_handle_Cons:
  "final_handle env h (st # sts) =
     final_handle env (if new_InputStream env st = None then Some st else h) sts"
  by (simp add: final_handle_def)

lemma final_handle_append:
  "final_handle env h (xs @ ys) = final_handle env (final_handle env h xs) ys"
  by (simp add: final_handle_def)

lemma final_handle_none:
  "\<forall>st \<in> set sts. new_InputStream env st \<noteq> None \<Longrightarrow> final_handle env h sts = h"
  by (induction sts arbitrary: h) (auto simp: final_handle_Nil final_handle_Cons)

lemma try_wasapi_ok: "fst (try_wasapi env idx s) = wasapi_ok env (config s) idx"

proof (cases "wasapi_settings env")
  case (Inl e)
  then show ?thesis by (simp add: try_wasapi_def wasapi_ok_def Let_def)

next
  case (Inr ws)
  obtain r s1 where o: "open_stream env (wasapi_stream (config s) ws idx) (logged [TryingWasapi idx] s) = (r, s1)"
    by (cases "open_stream env (wasapi_stream (config s) ws idx) (logged [TryingWasapi idx] s)")
  from open_stream_ok [of env "wasapi_stream (config s) ws idx" "logged [TryingWasapi idx] s"] o
  have "(r = None) = probe_ok env (wasapi_stream (config s) ws idx)" by simp
  with Inr o show ?thesis
    by (cases r) (simp_all add: try_wasapi_def wasapi_ok_def Let_def logged_fields)

qed

lemma try_wasapi_fields:
  "config (snd (try_wasapi env idx s)) = config s"
  "is_running (snd (try_wasapi env idx s)) = is_running s"

proof -
  have "config (snd (try_wasapi env idx s)) = config s \<and>
        is_running (snd (try_wasapi env idx s)) = is_running s"
  proof (cases "wasapi_settings env")
    case (Inl e)
    then show ?thesis by (simp add: try_wasapi_def Let_def logged_fields)
  next
    case (Inr ws)
    obtain r s1 where o: "open_stream env (wasapi_stream (config s) ws idx) (logged [TryingWasapi idx] s) = (r, s1)"
      by (cases "open_stream env (wasapi_stream (config s) ws idx) (logged [TryingWasapi idx] s)")
    from open_stream_fields [of env "wasapi_stream (config s) ws idx" "logged [TryingWasapi idx] s"] o
    have "config s1 = config s" "is_running s1 = is_running s" by (simp_all add: logged_fields)
    with Inr o show ?thesis
      by (cases r) (simp_all add: try_wasapi_def Let_def logged_fields)
  qed
  then show "config (snd (try_wasapi env idx s)) = config s"
    and "is_running (snd (try_wasapi env idx s)) = is_running s" by simp_all

qed

lemma try_wasapi_stream:
  "stream (snd (try_wasapi env idx s)) =
     final_handle env (stream s) (wasapi_requests env (config s) [idx])"

proof (cases "wasapi_settings env")
  case (Inl e)
  then show ?thesis
    by (simp add: try_wasapi_def Let_def logged_fields wasapi_requests_def final_handle_Nil)

next
  case (Inr ws)
  obtain r s1 where o: "open_stream env (wasapi_stream (config s) ws idx) (logged [TryingWasapi idx] s) = (r, s1)"
    by (cases "open_stream env (wasapi_stream (config s) ws idx) (logged [TryingWasapi idx] s)")
  from open_stream_stream [of env "wasapi_stream (config s) ws idx" "logged [TryingWasapi idx] s"] o
  have "stream s1 = (if new_InputStream env (wasapi_stream (config s) ws idx) = None
                     then Some (wasapi_stream (config s) ws idx) else stream s)"
    by (simp add: logged_fields)
  with Inr o show ?thesis
    by (cases r) (simp_all add: try_wasapi_def Let_def logged_fields wasapi_requests_def
        final_handle_Nil final_handle_Cons)

qed

lemma try_wasapi_log:
  "\<exists>r. ac_logger (snd (try_wasapi env idx s)) = ac_logger s @ [TryingWasapi idx, r]
       \<and> \<not> is_probe r \<and> is_success r = wasapi_ok env (config s) idx"

proof (cases "wasapi_settings env")
  case (Inl e)
  then show ?thesis by (simp add: try_wasapi_def Let_def logged_fields wasapi_ok_def)

next
  case (Inr ws)
  obtain r s1 where o: "open_stream env (wasapi_stream (config s) ws idx) (logged [TryingWasapi idx] s) = (r, s1)"
    by (cases "open_stream env (wasapi_stream (config s) ws idx) (logged [TryingWasapi idx] s)")
  from open_stream_fields(3) [of env "wasapi_stream (config s) ws idx" "logged [TryingWasapi idx] s"] o
  have l: "ac_logger s1 = ac_logger s @ [TryingWasapi idx]" by (simp add: logged_fields)
  from open_stream_ok [of env "wasapi_stream (config s) ws idx" "logged [TryingWasapi idx] s"] o
  have "(r = None) = probe_ok env (wasapi_stream (config s) ws idx)" by simp
  with Inr o l show ?thesis
    by (cases r) (simp_all add: try_wasapi_def wasapi_ok_def Let_def logged_fields)

qed

lemma try_wasapi_name:
  "\<not> wasapi_ok env (config s) idx \<Longrightarrow> device_name (snd (try_wasapi env idx s)) = device_name s"

proof (cases "wasapi_settings env")
  case (Inl e)
  then show ?thesis by (simp add: try_wasapi_def Let_def logged_fields)

next
  case (Inr ws)
  assume n: "\<not> wasapi_ok env (config s) idx"
  obtain r s1 where o: "open_stream env (wasapi_stream (config s) ws idx) (logged [TryingWasapi idx] s) = (r, s1)"
    by (cases "open_stream env (wasapi_stream (config s) ws idx) (logged [TryingWasapi idx] s)")
  from n Inr have np: "\<not> probe_ok env (wasapi_stream (config s) ws idx)"
    by (simp add: wasapi_ok_def)
  from open_stream_name [of env "wasapi_stream (config s) ws idx" "logged [TryingWasapi idx] s"] o np
  have "device_name s1 = device_name s" by (simp add: logged_fields)
  with Inr o show ?thesis
    by (cases r) (simp_all add: try_wasapi_def Let_def logged_fields)

qed

lemma upto_first_Nil: "upto_first P [] = []"
  by (simp add: upto_first_def)

lemma upto_first_Cons: "upto_first P (x # xs) = (if P x then [x] else x # upto_first P xs)"
  by (simp add: upto_first_def)

lemma upto_first_none: "\<forall>x \<in> set xs. \<not> P x \<Longrightarrow> upto_first P xs = xs"
  by (induction xs) (auto simp: upto_first_Nil upto_first_Cons)

lemma wasapi_requests_Nil: "wasapi_requests env cfg [] = []"
  by (simp add: wasapi_requests_def split: sum.splits)

lemma wasapi_requests_Cons:
  "wasapi_requests env cfg (idx # idxs) = wasapi_requests env cfg [idx] @ wasapi_requests env cfg idxs"
  by (simp add: wasapi_requests_def split: sum.splits)

lemma wasapi_ok_requests:
  "(\<exists>idx \<in> set idxs. wasapi_ok env cfg idx) = (\<exists>st \<in> set (wasapi_requests env cfg idxs). probe_ok env st)"
  by (cases "wasapi_settings env") (auto simp: wasapi_ok_def wasapi_requests_def)

lemma stereo_ok_requests:
  "(\<exists>idx \<in> set idxs. stereo_ok env cfg idx) = (\<exists>st \<in> set (map (stereo_stream cfg) idxs). probe_ok env st)"
  by (auto simp: stereo_ok_def)

lemma wasapi_loop_step:
  "wasapi_loop env (idx # idxs) s =
     (if wasapi_ok env (config s) idx then try_wasapi env idx s
      else wasapi_loop env idxs (snd (try_wasapi env idx s)))"
  using try_wasapi_ok [of env idx s]
  by (cases "try_wasapi env idx s") (auto split: bool.splits)

lemma wasapi_loop_ok:
  "fst (wasapi_loop env idxs s) = (\<exists>idx \<in> set idxs. wasapi_ok env (config s) idx)"

proof (induction idxs arbitrary: s)
  case Nil
  then show ?case by simp

next
  case (Cons idx idxs)
  show ?case
    by (simp only: wasapi_loop_step)
      (simp add: Cons.IH try_wasapi_ok try_wasapi_fields)

qed

lemma wasapi_loop_fields:
  "config (snd (wasapi_loop env idxs s)) = config s \<and>
   is_running (snd (wasapi_loop env idxs s)) = is_running s"

proof (induction idxs arbitrary: s)
  case Nil
  then show ?case by simp

next
  case (Cons idx idxs)
  show ?case
    by (simp only: wasapi_loop_step) (simp add: Cons.IH try_wasapi_fields)

qed

lemma wasapi_loop_failed:
  "\<not> fst (wasapi_loop env idxs s) \<Longrightarrow>
   stream (snd (wasapi_loop env idxs s)) =
     final_handle env (stream s) (wasapi_requests env (config s) idxs)
   \<and> device_name (snd (wasapi_loop env idxs s)) = device_name s"

proof (induction idxs arbitrary: s)
  case Nil
  then show ?case by (simp add: wasapi_requests_Nil final_handle_Nil)

next
  case (Cons idx idxs)
  from Cons.prems [unfolded wasapi_loop_ok]
  have no: "\<not> wasapi_ok env (config s) idx"
    and rest: "\<not> fst (wasapi_loop env idxs (snd (try_wasapi env idx s)))"
    by (simp_all add: wasapi_loop_ok try_wasapi_fields)
  from Cons.IH [OF rest] no show ?case
    by (simp only: wasapi_loop_step)
      (simp add: try_wasapi_fields try_wasapi_stream try_wasapi_name
        wasapi_requests_Cons [of env "config s" idx idxs] final_handle_append)

qed

lemma try_wasapi_won:
  assumes "wasapi_ok env (config s) idx"
  shows "\<exists>ws. wasapi_settings env = Inr ws
          \<and> stream (snd (try_wasapi env idx s)) = Some (wasapi_stream (config s) ws idx)"

proof -
  from assms obtain ws where ws: "wasapi_settings env = Inr ws"
    and ok: "probe_ok env (wasapi_stream (config s) ws idx)"
    by (auto simp: wasapi_ok_def split: sum.splits)
  from ok have "new_InputStream env (wasapi_stream (config s) ws idx) = None"
    by (simp add: probe_ok_def)
  with ws show ?thesis
    by (simp add: try_wasapi_stream wasapi_requests_def final_handle_Cons final_handle_Nil)

qed

lemma wasapi_loop_won:
  "fst (wasapi_loop env idxs s) \<Longrightarrow>
   \<exists>idx ws. find (wasapi_ok env (config s)) idxs = Some idx \<and> wasapi_settings env = Inr ws
      \<and> stream (snd (wasapi_loop env idxs s)) = Some (wasapi_stream (config s) ws idx)"

proof (induction idxs arbitrary: s)
  case Nil
  then show ?case by simp

next
  case (Cons idx idxs)
  show ?case
  proof (cases "wasapi_ok env (config s) idx")
    case True
    with try_wasapi_won [OF True] show ?thesis
      by (simp only: wasapi_loop_step) auto
  next
    case False
    with Cons.prems have "fst (wasapi_loop env idxs (snd (try_wasapi env idx s)))"
      by (simp only: wasapi_loop_step) simp
    from Cons.IH [OF this] False show ?thesis
      by (simp only: wasapi_loop_step) (simp add: try_wasapi_fields)
  qed

qed

lemma wasapi_loop_log:
  "\<exists>new. ac_logger (snd (wasapi_loop env idxs s)) = ac_logger s @ new
     \<and> filter is_probe new = map TryingWasapi (upto_first (wasapi_ok env (config s)) idxs)
     \<and> filter is_success new = (if fst (wasapi_loop env idxs s) then [last new] else [])
     \<and> (fst (wasapi_loop env idxs s) \<longrightarrow> new \<noteq> [])"

proof (induction idxs arbitrary: s)
  case Nil
  then show ?case by (simp add: upto_first_Nil)

next
  case (Cons idx idxs)
  from try_wasapi_log [of env idx s] obtain r where
    r: "ac_logger (snd (try_wasapi env idx s)) = ac_logger s @ [TryingWasapi idx, r]"
      "\<not> is_probe r" "is_success r = wasapi_ok env (config s) idx" by blast
  show ?case
  proof (cases "wasapi_ok env (config s) idx")
    case True
    have "ac_logger (snd (try_wasapi env idx s)) = ac_logger s @ [TryingWasapi idx, r]
       \<and> filter is_probe [TryingWasapi idx, r] = map TryingWasapi (upto_first (wasapi_ok env (config s)) (idx # idxs))
       \<and> filter is_success [TryingWasapi idx, r] = [last [TryingWasapi idx, r]]"
      using r True by (simp add: upto_first_Cons)
    with True show ?thesis
      by (simp only: wasapi_loop_step) (auto simp: try_wasapi_ok intro!: exI [of _ "[TryingWasapi idx, r]"])
  next
    case False
    from Cons.IH [of "snd (try_wasapi env idx s)"] obtain new where
      new: "ac_logger (snd (wasapi_loop env idxs (snd (try_wasapi env idx s)))) =
              ac_logger (snd (try_wasapi env idx s)) @ new"
        "filter is_probe new = map TryingWasapi (upto_first (wasapi_ok env (config s)) idxs)"
        "filter is_success new =
           (if fst (wasapi_loop env idxs (snd (try_wasapi env idx s))) then [last new] else [])"
        "fst (wasapi_loop env idxs (snd (try_wasapi env idx s))) \<longrightarrow> new \<noteq> []"
      by (auto simp: try_wasapi_fields)
    from False new r show ?thesis
      by (simp only: wasapi_loop_step)
        (auto simp: upto_first_Cons intro!: exI [of _ "[TryingWasapi idx, r] @ new"])
  qed

qed

lemma stereo_attempt_eq:
  "stereo_attempt env idx s =
     (case open_stream env (stereo_stream (config s) idx) (logged [TryingStereoMix idx] s) of
        (Some e, s1) \<Rightarrow> (False, logged [StereoMixFailed idx e] s1)
      | (None, s1) \<Rightarrow> (True, logged [StereoMixSuccess idx (device_name s1)] s1))"
  by (simp add: stereo_attempt_def Let_def logged_fields)

lemma stereo_attempt_ok: "fst (stereo_attempt env idx s) = stereo_ok env (config s) idx"

proof -
  obtain r s1 where o: "open_stream env (stereo_stream (config s) idx) (logged [TryingStereoMix idx] s) = (r, s1)"
    by (cases "open_stream env (stereo_stream (config s) idx) (logged [TryingStereoMix idx] s)")
  from open_stream_ok [of env "stereo_stream (config s) idx" "logged [TryingStereoMix idx] s"] o
  have "(r = None) = probe_ok env (stereo_stream (config s) idx)" by simp
  with o show ?thesis
    by (cases r) (simp_all add: stereo_attempt_eq stereo_ok_def)

qed

lemma stereo_attempt_fields:
  "config (snd (stereo_attempt env idx s)) = config s \<and>
   is_running (snd (stereo_attempt env idx s)) = is_running s"

proof -
  obtain r s1 where o: "open_stream env (stereo_stream (config s) idx) (logged [TryingStereoMix idx] s) = (r, s1)"
    by (cases "open_stream env (stereo_stream (config s) idx) (logged [TryingStereoMix idx] s)")
  from open_stream_fields [of env "stereo_stream (config s) idx" "logged [TryingStereoMix idx] s"] o
  have "config s1 = config s" "is_running s1 = is_running s" by (simp_all add: logged_fields)
  with o show ?thesis
    by (cases r) (simp_all add: stereo_attempt_eq logged_fields)

qed

lemma stereo_attempt_stream:
  "stream (snd (stereo_attempt env idx s)) =
     final_handle env (stream s) [stereo_stream (config s) idx]"

proof -
  obtain r s1 where o: "open_stream env (stereo_stream (config s) idx) (logged [TryingStereoMix idx] s) = (r, s1)"
    by (cases "open_stream env (stereo_stream (config s) idx) (logged [TryingStereoMix idx] s)")
  from open_stream_stream [of env "stereo_stream (config s) idx" "logged [TryingStereoMix idx] s"] o
  have "stream s1 = (if new_InputStream env (stereo_stream (config s) idx) = None
                     then Some (stereo_stream (config s) idx) else stream s)"
    by (simp add: logged_fields)
  with o show ?thesis
    by (cases r) (simp_all add: stereo_attempt_eq logged_fields final_handle_Nil final_handle_Cons)

qed

lemma stereo_attempt_log:
  "\<exists>r. ac_logger (snd (stereo_attempt env idx s)) = ac_logger s @ [TryingStereoMix idx, r]
       \<and> \<not> is_probe r \<and> is_success r = stereo_ok env (config s) idx"

proof -
  obtain r s1 where o: "open_stream env (stereo_stream (config s) idx) (logged [TryingStereoMix idx] s) = (r, s1)"
    by (cases "open_stream env (stereo_stream (config s) idx) (logged [TryingStereoMix idx] s)")
  from open_stream_fields(3) [of env "stereo_stream (config s) idx" "logged [TryingStereoMix idx] s"] o
  have l: "ac_logger s1 = ac_logger s @ [TryingStereoMix idx]" by (simp add: logged_fields)
  from open_stream_ok [of env "stereo_stream (config s) idx" "logged [TryingStereoMix idx] s"] o
  have "(r = None) = probe_ok env (stereo_stream (config s) idx)" by simp
  with o l show ?thesis
    by (cases r) (simp_all add: stereo_attempt_eq stereo_ok_def logged_fields)

qed

lemma stereo_attempt_name:
  assumes "\<not> stereo_ok env (config s) idx"
  shows "device_name (snd (stereo_attempt env idx s)) = device_name s"

proof -
  obtain r s1 where o: "open_stream env (stereo_stream (config s) idx) (logged [TryingStereoMix idx] s) = (r, s1)"
    by (cases "open_stream env (stereo_stream (config s) idx) (logged [TryingStereoMix idx] s)")
  from assms have np: "\<not> probe_ok env (stereo_stream (config s) idx)"
    by (simp add: stereo_ok_def)
  from open_stream_name [of env "stereo_stream (config s) idx" "logged [TryingStereoMix idx] s"] o np
  have "device_name s1 = device_name s" by (simp add: logged_fields)
  with o show ?thesis
    by (cases r) (simp_all add: stereo_attempt_eq logged_fields)

qed

lemma stereo_attempt_won:
  assumes "stereo_ok env (config s) idx"
  shows "stream (snd (stereo_attempt env idx s)) = Some (stereo_stream (config s) idx)"

proof -
  from assms have "new_InputStream env (stereo_stream (config s) idx) = None"
    by (simp add: stereo_ok_def probe_ok_def)
  then show ?thesis
    by (simp add: stereo_attempt_stream final_handle_Cons final_handle_Nil)

qed

lemma stereo_mix_step:
  "try_stereo_mix env (idx # idxs) s =
     (if stereo_ok env (config s) idx then stereo_attempt env idx s
      else try_stereo_mix env idxs (snd (stereo_attempt env idx s)))"
  using stereo_attempt_ok [of env idx s]
  by (cases "stereo_attempt env idx s") (auto split: bool.splits)

lemma stereo_mix_ok:
  "fst (try_stereo_mix env idxs s) = (\<exists>idx \<in> set idxs. stereo_ok env (config s) idx)"

proof (induction idxs arbitrary: s)
  case Nil
  then show ?case by simp

next
  case (Cons idx idxs)
  show ?case
    by (simp only: stereo_mix_step)
      (simp add: Cons.IH stereo_attempt_ok stereo_attempt_fields)

qed

lemma stereo_mix_fields:
  "config (snd (try_stereo_mix env idxs s)) = config s \<and>
   is_running (snd (try_stereo_mix env idxs s)) = is_running s"

proof (induction idxs arbitrary: s)
  case Nil
  then show ?case by simp

next
  case (Cons idx idxs)
  show ?case
    by (simp only: stereo_mix_step) (simp add: Cons.IH stereo_attempt_fields)

qed

lemma stereo_mix_failed:
  "\<not> fst (try_stereo_mix env idxs s) \<Longrightarrow>
   stream (snd (try_stereo_mix env idxs s)) =
     final_handle env (stream s) (map (stereo_stream (config s)) idxs)
   \<and> device_name (snd (try_stereo_mix env idxs s)) = device_name s"

proof (induction idxs arbitrary: s)
  case Nil
  then show ?case by (simp add: final_handle_Nil)

next
  case (Cons idx idxs)
  from Cons.prems [unfolded stereo_mix_ok]
  have no: "\<not> stereo_ok env (config s) idx"
    and rest: "\<not> fst (try_stereo_mix env idxs (snd (stereo_attempt env idx s)))"
    by (simp_all add: stereo_mix_ok stereo_attempt_fields)
  from Cons.IH [OF rest] no show ?case
    by (simp only: stereo_mix_step)
      (simp add: stereo_attempt_fields stereo_attempt_stream stereo_attempt_name
        final_handle_Cons final_handle_Nil)

qed

lemma stereo_mix_won:
  "fst (try_stereo_mix env idxs s) \<Longrightarrow>
   \<exists>idx. find (stereo_ok env (config s)) idxs = Some idx
      \<and> stream (snd (try_stereo_mix env idxs s)) = Some (stereo_stream (config s) idx)"

proof (induction idxs arbitrary: s)
  case Nil
  then show ?case by simp

next
  case (Cons idx idxs)
  show ?case
  proof (cases "stereo_ok env (config s) idx")
    case True
    with stereo_attempt_won [OF True] show ?thesis
      by (simp only: stereo_mix_step) auto
  next
    case False
    with Cons.prems have "fst (try_stereo_mix env idxs (snd (stereo_attempt env idx s)))"
      by (simp only: stereo_mix_step) simp
    from Cons.IH [OF this] False show ?thesis
      by (simp only: stereo_mix_step) (simp add: stereo_attempt_fields)
  qed

qed

lemma stereo_mix_log:
  "\<exists>new. ac_logger (snd (try_stereo_mix env idxs s)) = ac_logger s @ new
     \<and> filter is_probe new = map TryingStereoMix (upto_first (stereo_ok env (config s)) idxs)
     \<and> filter is_success new = (if fst (try_stereo_mix env idxs s) then [last new] else [])
     \<and> (fst (try_stereo_mix env idxs s) \<longrightarrow> new \<noteq> [])"

proof (induction idxs arbitrary: s)
  case Nil
  then show ?case by (simp add: upto_first_Nil)

next
  case (Cons idx idxs)
  from stereo_attempt_log [of env idx s] obtain r where
    r: "ac_logger (snd (stereo_attempt env idx s)) = ac_logger s @ [TryingStereoMix idx, r]"
      "\<not> is_probe r" "is_success r = stereo_ok env (config s) idx" by blast
  show ?case
  proof (cases "stereo_ok env (config s) idx")
    case True
    have "ac_logger (snd (stereo_attempt env idx s)) = ac_logger s @ [TryingStereoMix idx, r]
       \<and> filter is_probe [TryingStereoMix idx, r] = map TryingStereoMix (upto_first (stereo_ok env (config s)) (idx # idxs))
       \<and> filter is_success [TryingStereoMix idx, r] = [last [TryingStereoMix idx, r]]"
      using r True by (simp add: upto_first_Cons)
    with True show ?thesis
      by (simp only: stereo_mix_step) (auto simp: stereo_attempt_ok intro!: exI [of _ "[TryingStereoMix idx, r]"])
  next
    case False
    from Cons.IH [of "snd (stereo_attempt env idx s)"] obtain new where
      new: "ac_logger (snd (try_stereo_mix env idxs (snd (stereo_attempt env idx s)))) =
              ac_logger (snd (stereo_attempt env idx s)) @ new"
        "filter is_probe new = map TryingStereoMix (upto_first (stereo_ok env (config s)) idxs)"
        "filter is_success new =
           (if fst (try_stereo_mix env idxs (snd (stereo_attempt env idx s))) then [last new] else [])"
        "fst (try_stereo_mix env idxs (snd (stereo_attempt env idx s))) \<longrightarrow> new \<noteq> []"
      by (auto simp: stereo_attempt_fields)
    from False new r show ?thesis
      by (simp only: stereo_mix_step)
        (auto simp: upto_first_Cons intro!: exI [of _ "[TryingStereoMix idx, r] @ new"])
  qed

qed

lemma list_devices_ok:
  "query_devices env = Inr devices \<Longrightarrow>
   \<exists>recs. list_devices env s = (Inr devices, logged recs s)
      \<and> filter is_probe recs = [] \<and> filter is_success recs = []"
  by (auto simp: list_devices_def filter_empty_conv
      intro!: exI [of _ "AvailableDevices #
        map (\<lambda>(i, d). DeviceLine i (name d) (max_output_channels d) (max_input_channels d))
          (enumerate 0 devices)"])

lemma initialize_raises:
  "query_devices env = Inl e \<Longrightarrow> initialize env s = (Inl e, s)"
  by (simp add: initialize_def list_devices_def)

lemma initialize_eq:
  assumes "list_devices env s = (Inr devices, s0)"
  shows "initialize env s =
     (if fst (wasapi_loop env (out_candidates_of devices) s0)
      then (Inr True, (snd (wasapi_loop env (out_candidates_of devices) s0))\<lparr>is_running := True\<rparr>)
      else if fst (try_stereo_mix env (stereo_candidates_of env devices)
                    (logged [TryingStereoMixFallback]
                       (snd (wasapi_loop env (out_candidates_of devices) s0))))
      then (Inr True,
            (snd (try_stereo_mix env (stereo_candidates_of env devices)
                    (logged [TryingStereoMixFallback]
                       (snd (wasapi_loop env (out_candidates_of devices) s0)))))\<lparr>is_running := True\<rparr>)
      else (Inr False,
            logged [NoAudioSource]
              (snd (try_stereo_mix env (stereo_candidates_of env devices)
                      (logged [TryingStereoMixFallback]
                         (snd (wasapi_loop env (out_candidates_of devices) s0)))))))"
  using assms
  by (simp add: initialize_def split: prod.splits bool.splits)

lemma final_handle_Some: "h \<noteq> None \<Longrightarrow> final_handle env h sts \<noteq> None"
  by (induction sts arbitrary: h) (auto simp: final_handle_Nil final_handle_Cons)

lemma initialize_no_success:
  assumes dev: "query_devices env = Inr devices"
      and none: "\<forall>st \<in> set (probe_requests env (config s) devices). \<not> probe_ok env st"
  shows "fst (initialize env s) = Inr False"
    and "is_running (snd (initialize env s)) = is_running s"
    and "config (snd (initialize env s)) = config s"
    and "device_name (snd (initialize env s)) = device_name s"
    and "stream (snd (initialize env s)) =
           final_handle env (stream s) (probe_requests env (config s) devices)"

proof -
  from list_devices_ok [OF dev, of s] obtain recs where
    ld: "list_devices env s = (Inr devices, logged recs s)" by blast
  define s0 where "s0 = logged recs s"
  define w where "w = wasapi_loop env (out_candidates_of devices) s0"
  define m where "m = try_stereo_mix env (stereo_candidates_of env devices)
                        (logged [TryingStereoMixFallback] (snd w))"
  have c0: "config s0 = config s" by (simp add: s0_def logged_fields)
  have cw: "config (snd w) = config s" "is_running (snd w) = is_running s"
    using wasapi_loop_fields [of env "out_candidates_of devices" s0]
    by (simp_all add: w_def c0 s0_def logged_fields)
  from none have nw: "\<not> fst w"
    by (simp add: w_def wasapi_loop_ok c0 wasapi_ok_requests probe_requests_def)
  from none have nm: "\<not> fst m"
    by (simp add: m_def stereo_mix_ok logged_fields cw stereo_ok_requests probe_requests_def)
  have init: "initialize env s = (Inr False, logged [NoAudioSource] (snd m))"
    using nw nm by (simp add: initialize_eq [OF ld] w_def [symmetric] s0_def [symmetric] m_def [symmetric])
  from wasapi_loop_failed [of env "out_candidates_of devices" s0] nw
  have sw: "stream (snd w) = final_handle env (stream s) (wasapi_requests env (config s) (out_candidates_of devices))"
    "device_name (snd w) = device_name s"
    by (simp_all add: w_def [symmetric] c0) (simp_all add: s0_def logged_fields)
  from stereo_mix_failed [of env "stereo_candidates_of env devices"
      "logged [TryingStereoMixFallback] (snd w)"] nm
  have sm: "stream (snd m) = final_handle env (stream (snd w))
              (map (stereo_stream (config s)) (stereo_candidates_of env devices))"
    "device_name (snd m) = device_name (snd w)"
    by (simp_all add: m_def [symmetric] logged_fields cw)
  have fm: "config (snd m) = config s" "is_running (snd m) = is_running s"
    using stereo_mix_fields [of env "stereo_candidates_of env devices"
        "logged [TryingStereoMixFallback] (snd w)"]
    by (simp_all add: m_def [symmetric] logged_fields cw)
  show "fst (initialize env s) = Inr False" by (simp add: init)
  show "is_running (snd (initialize env s)) = is_running s" by (simp add: init logged_fields fm)
  show "config (snd (initialize env s)) = config s" by (simp add: init logged_fields fm)
  show "device_name (snd (initialize env s)) = device_name s"
    by (simp add: init logged_fields sm sw)
  show "stream (snd (initialize env s)) =
           final_handle env (stream s) (probe_requests env (config s) devices)"
    by (simp add: init logged_fields sm sw probe_requests_def final_handle_append)

qed

lemma ex_out_candidates: "out_candidates_of ex_devices = [0, 1]"
  by code_simp

lemma ex_stereo_candidates: "stereo_candidates_of (ex_audio ex_devices new start) ex_devices = [2]"
  by (simp add: stereo_candidates_of_def ex_audio_def ex_devices_def enumerate_eq_zip ascii_lower_def upt_rec)

lemma ex_no_start_init:
  "initialize ex_audio_no_start ex_capture =
     (Inr False,
      \<lparr>config = ServerConfig_default,
       stream = Some (stereo_stream ServerConfig_default 2),
       is_running = False, device_name = ''Unknown'',
       ac_logger =
         [AvailableDevices, DeviceLine 0 ''Speakers'' 2 0, DeviceLine 1 ''Headphones'' 2 0,
          DeviceLine 2 ''Stereo Mix'' 0 2,
          TryingWasapi 0, WasapiFailed 0 (PortAudioError ''Error starting stream''),
          TryingWasapi 1, WasapiFailed 1 (PortAudioError ''Error starting stream''),
          TryingStereoMixFallback,
          TryingStereoMix 2, StereoMixFailed 2 (PortAudioError ''Error starting stream''),
          NoAudioSource]\<rparr>)"
  by code_simp

lemma ex_second_init:
  "initialize ex_audio_second ex_capture =
     (Inr True,
      \<lparr>config = ServerConfig_default,
       stream = Some (wasapi_stream ServerConfig_default (Some WasapiLoopback) 1),
       is_running = True, device_name = ''Headphones'',
       ac_logger =
         [AvailableDevices, DeviceLine 0 ''Speakers'' 2 0, DeviceLine 1 ''Headphones'' 2 0,
          DeviceLine 2 ''Stereo Mix'' 0 2,
          TryingWasapi 0, WasapiFailed 0 (PortAudioError ''Error opening InputStream''),
          TryingWasapi 1, WasapiSuccess 1 ''Headphones'']\<rparr>)"
  by code_simp

lemma ex_empty_init:
  "initialize ex_audio_empty ex_capture =
     (Inr False,
      \<lparr>config = ServerConfig_default, stream = None, is_running = False,
       device_name = ''Unknown'',
       ac_logger = [AvailableDevices, TryingStereoMixFallback, NoAudioSource]\<rparr>)"
  by code_simp

text \<open>
  Claim C3, amended. When the enumeration returns and no candidate succeeds under either
  strategy, \<open>initialize\<close> returns \<open>False\<close> and leaves the running flag and the device
  name as they were, so that a source that was not running still reads nothing. The
  handle field is as before the call when every probe failed in the stream constructor;
  in general it holds the last stream whose constructor returned during the probes.
\<close>

theorem initialize_without_device:
  assumes "query_devices env = Inr devices"
      and "\<forall>st \<in> set (probe_requests env (config s) devices). \<not> probe_ok env st"
  shows "fst (initialize env s) = Inr False
       \<and> is_running (snd (initialize env s)) = is_running s
       \<and> device_name (snd (initialize env s)) = device_name s
       \<and> stream (snd (initialize env s)) =
           final_handle env (stream s) (probe_requests env (config s) devices)
       \<and> ((\<forall>st \<in> set (probe_requests env (config s) devices). new_InputStream env st \<noteq> None)
            \<longrightarrow> stream (snd (initialize env s)) = stream s)
       \<and> (\<not> is_running s \<longrightarrow> fst (read_block env' (snd (initialize env s))) = None)"
  using initialize_no_success [OF assms]
  by (simp add: final_handle_none read_block_def split: option.splits)

lemma ex_no_start_requests:
  "probe_requests ex_audio_no_start (config ex_capture) ex_devices =
     [wasapi_stream ServerConfig_default (Some WasapiLoopback) 0,
      wasapi_stream ServerConfig_default (Some WasapiLoopback) 1,
      stereo_stream ServerConfig_default 2]"
  by code_simp

lemma ex_no_start_probe: "\<not> probe_ok ex_audio_no_start st"
  by (simp add: probe_ok_def ex_audio_no_start_def ex_audio_def)

theorem initialize_without_device_witness:
  "query_devices ex_audio_no_start = Inr ex_devices
   \<and> list_all (\<lambda>st. \<not> probe_ok ex_audio_no_start st)
        (probe_requests ex_audio_no_start (config ex_capture) ex_devices)
   \<and> stream ex_capture = None
   \<and> is_running ex_capture = False
   \<and> fst (initialize ex_audio_no_start ex_capture) = Inr False
   \<and> is_running (snd (initialize ex_audio_no_start ex_capture)) = False
   \<and> stream (snd (initialize ex_audio_no_start ex_capture)) =
       final_handle ex_audio_no_start None
         [wasapi_stream ServerConfig_default (Some WasapiLoopback) 0,
          wasapi_stream ServerConfig_default (Some WasapiLoopback) 1,
          stereo_stream ServerConfig_default 2]"

proof -
  have q: "query_devices ex_audio_no_start = Inr ex_devices"
    by (simp add: ex_audio_no_start_def ex_audio_def)
  have n: "\<forall>st \<in> set (probe_requests ex_audio_no_start (config ex_capture) ex_devices).
             \<not> probe_ok ex_audio_no_start st"
    by (simp add: ex_no_start_probe)
  have c: "stream ex_capture = None" "is_running ex_capture = False"
    by (simp_all add: ex_capture_def AudioCapture_init_def)
  from initialize_without_device [OF q n] q n c show ?thesis
    by (simp add: ex_no_start_requests list_all_iff)

qed

text \<open>
  Claim C3 fails as stated: on a fresh source, with devices whose streams can be built but
  not started, no candidate succeeds, \<open>initialize\<close> returns \<open>False\<close> and the handle
  field holds the stream of the last probe.
\<close>

theorem initialize_keeps_unstarted_stream_counterexample:
  "fst (initialize ex_audio_no_start ex_capture) = Inr False
   \<and> \<not> list_ex (probe_ok ex_audio_no_start)
         (probe_requests ex_audio_no_start (config ex_capture) ex_devices)
   \<and> stream (snd (initialize ex_audio_no_start ex_capture)) \<noteq> None"
  by (simp add: ex_no_start_init list_ex_iff ex_no_start_probe)

lemma candidates_of_Nil: "out_candidates_of [] = []" "stereo_candidates_of env [] = []"
  by (simp_all add: out_candidates_of_def stereo_candidates_of_def)

text \<open>
  Claim C8. When the enumeration yields no candidate for either strategy, \<open>initialize\<close>
  on a source that is not running returns \<open>False\<close>, and the snapshot of
  \<open>get_device_info\<close> taken afterwards reports \<open>is_running\<close> false; the handle field is
  untouched.
\<close>

theorem initialize_zero_candidates:
  assumes "query_devices env = Inr devices"
      and "out_candidates_of devices = []"
      and "stereo_candidates_of env devices = []"
      and "\<not> is_running s"
  shows "fst (initialize env s) = Inr False
       \<and> info_is_running (get_device_info (snd (initialize env s))) = False
       \<and> stream (snd (initialize env s)) = stream s"
  using assms
  by (simp add: initialize_def list_devices_def get_device_info_def logged_fields)

theorem initialize_zero_candidates_witness:
  "query_devices ex_audio_empty = Inr []
   \<and> out_candidates_of [] = []
   \<and> stereo_candidates_of ex_audio_empty [] = []
   \<and> is_running ex_capture = False
   \<and> fst (initialize ex_audio_empty ex_capture) = Inr False
   \<and> info_is_running (get_device_info (snd (initialize ex_audio_empty ex_capture))) = False"

proof -
  have q: "query_devices ex_audio_empty = Inr []"
    by (simp add: ex_audio_empty_def ex_audio_def)
  have r: "\<not> is_running ex_capture"
    by (simp add: ex_capture_def AudioCapture_init_def)
  from initialize_zero_candidates [OF q candidates_of_Nil(1) candidates_of_Nil(2) r] q r
  show ?thesis
    by (simp add: candidates_of_Nil)

qed

lemma stop_fields:
  "stream s \<noteq> None \<Longrightarrow> stream (stop env s) = None \<and> \<not> is_running (stop env s)"
  "stream s = None \<Longrightarrow> stop env s = logged [CaptureStopped] s"
  "config (stop env s) = config s" "device_name (stop env s) = device_name s"
  by (auto simp: stop_def logged_fields split: option.splits)

lemma stop_stream: "AudioCapture_inv s \<Longrightarrow> stream (stop env s) = None \<and> \<not> is_running (stop env s)"
  by (cases "stream s") (auto simp: stop_fields logged_fields AudioCapture_inv_def)

lemma stop_stream_None: "stream (stop env s) = None"
  by (cases "stream s") (auto simp: stop_fields logged_fields)

text \<open>
  Claim C7. A second \<open>stop\<close> changes nothing but the log, where it adds its completion
  record: the state after two calls is the state after one, the handle is empty after
  either, and on every state that satisfies the invariant of the class (in particular the
  freshly built one, where \<open>stop\<close> only logs) the source is not running after either.
  \<open>stop\<close> is total: what \<open>stream.stop\<close> and \<open>stream.close\<close> raise is caught and logged.
\<close>

theorem stop_idempotent:
  "stop env' (stop env s) = logged [CaptureStopped] (stop env s)
   \<and> get_device_info (stop env' (stop env s)) = get_device_info (stop env s)
   \<and> stream (stop env' (stop env s)) = stream (stop env s)
   \<and> stream (stop env s) = None
   \<and> (AudioCapture_inv s \<longrightarrow>
        \<not> is_running (stop env s) \<and> \<not> is_running (stop env' (stop env s)))
   \<and> stop env (AudioCapture_init cfg) = logged [CaptureStopped] (AudioCapture_init cfg)
   \<and> stream (AudioCapture_init cfg) = None \<and> \<not> is_running (AudioCapture_init cfg)"

proof -
  have twice: "stop env' (stop env s) = logged [CaptureStopped] (stop env s)"
    by (simp add: stop_fields(2) stop_stream_None)
  have init: "stop env (AudioCapture_init cfg) = logged [CaptureStopped] (AudioCapture_init cfg)"
    by (simp add: stop_fields(2) AudioCapture_init_def)
  show ?thesis
    by (simp add: twice init get_device_info_def logged_fields stop_stream stop_stream_None)
      (simp add: AudioCapture_init_def)

qed

lemma ex_second_stop:
  "stop ex_audio_second (snd (initialize ex_audio_second ex_capture)) =
     \<lparr>config = ServerConfig_default, stream = None, is_running = False,
      device_name = ''Headphones'',
      ac_logger =
         [AvailableDevices, DeviceLine 0 ''Speakers'' 2 0, DeviceLine 1 ''Headphones'' 2 0,
          DeviceLine 2 ''Stereo Mix'' 0 2,
          TryingWasapi 0, WasapiFailed 0 (PortAudioError ''Error opening InputStream''),
          TryingWasapi 1, WasapiSuccess 1 ''Headphones'',
          ErrorStopping (PortAudioError ''Error closing stream''), CaptureStopped]\<rparr>"
  by code_simp

theorem stop_idempotent_witness:
  "AudioCapture_inv (snd (initialize ex_audio_second ex_capture))
   \<and> is_running (snd (initialize ex_audio_second ex_capture))
   \<and> is_running (stop ex_audio_second (snd (initialize ex_audio_second ex_capture))) = False
   \<and> is_running (stop ex_audio_second
         (stop ex_audio_second (snd (initialize ex_audio_second ex_capture)))) = False
   \<and> stream (stop ex_audio_second
         (stop ex_audio_second (snd (initialize ex_audio_second ex_capture)))) = None"

proof -
  have inv: "AudioCapture_inv (snd (initialize ex_audio_second ex_capture))"
    by (simp add: ex_second_init AudioCapture_inv_def)
  have run: "is_running (snd (initialize ex_audio_second ex_capture))"
    by (simp add: ex_second_init)
  from stop_idempotent [of ex_audio_second ex_audio_second
      "snd (initialize ex_audio_second ex_capture)" ServerConfig_default] inv run
  show ?thesis
    by (simp add: logged_fields)

qed

section \<open>Probing order and reads\<close>

lemma new_records_append: "ac_logger s' = ac_logger s @ new \<Longrightarrow> new_records s s' = new"
  by (simp add: new_records_def)

text \<open>
  Claim C6. \<open>initialize\<close> probes the output candidates in order, then the fallback
  candidates in order, and stops at the first probe that succeeds: the probes it announces
  in the log are the candidates up to and including the first one that opens, and no
  fallback candidate when an output candidate opened. It returns \<open>True\<close> exactly when
  some candidate opens; then the source is running, the handle is the stream of that first
  candidate, and the record of the success is the only one of its kind and the last thing
  logged. When it returns \<open>False\<close> no success was logged and the flag is as before.
\<close>

theorem first_success_wins:
  assumes dev: "query_devices env = Inr devices"
  shows
   "fst (initialize env s) =
      Inr ((\<exists>i \<in> set (out_candidates_of devices). wasapi_ok env (config s) i)
           \<or> (\<exists>i \<in> set (stereo_candidates_of env devices). stereo_ok env (config s) i))
    \<and> filter is_probe (new_records s (snd (initialize env s))) =
        map TryingWasapi (upto_first (wasapi_ok env (config s)) (out_candidates_of devices))
        @ (if \<exists>i \<in> set (out_candidates_of devices). wasapi_ok env (config s) i then []
           else map TryingStereoMix
                  (upto_first (stereo_ok env (config s)) (stereo_candidates_of env devices)))
    \<and> (fst (initialize env s) = Inr True \<longrightarrow>
          is_running (snd (initialize env s))
          \<and> new_records s (snd (initialize env s)) \<noteq> []
          \<and> filter is_success (new_records s (snd (initialize env s))) =
              [last (new_records s (snd (initialize env s)))]
          \<and> map_option st_device (stream (snd (initialize env s))) =
              (if \<exists>i \<in> set (out_candidates_of devices). wasapi_ok env (config s) i
               then find (wasapi_ok env (config s)) (out_candidates_of devices)
               else find (stereo_ok env (config s)) (stereo_candidates_of env devices)))
    \<and> (fst (initialize env s) = Inr False \<longrightarrow>
          filter is_success (new_records s (snd (initialize env s))) = []
          \<and> is_running (snd (initialize env s)) = is_running s)"

proof -
  define outs where "outs = out_candidates_of devices"
  define mixes where "mixes = stereo_candidates_of env devices"
  from list_devices_ok [OF dev, of s] obtain recs where
    ld: "list_devices env s = (Inr devices, logged recs s)"
    and recs: "filter is_probe recs = []" "filter is_success recs = []" by blast
  define s0 where "s0 = logged recs s"
  define w where "w = wasapi_loop env outs s0"
  define m where "m = try_stereo_mix env mixes (logged [TryingStereoMixFallback] (snd w))"
  have c0: "config s0 = config s" by (simp add: s0_def logged_fields)
  have cw: "config (snd w) = config s" "is_running (snd w) = is_running s"
    using wasapi_loop_fields [of env outs s0]
    by (simp_all add: w_def c0 s0_def logged_fields)
  have fw: "fst w = (\<exists>i \<in> set outs. wasapi_ok env (config s) i)"
    by (simp add: w_def wasapi_loop_ok c0)
  have fm: "fst m = (\<exists>i \<in> set mixes. stereo_ok env (config s) i)"
    by (simp add: m_def stereo_mix_ok logged_fields cw)
  from wasapi_loop_log [of env outs s0, folded w_def, unfolded c0] obtain newW where
    lw0: "ac_logger (snd w) = ac_logger s0 @ newW"
    and pw: "filter is_probe newW = map TryingWasapi (upto_first (wasapi_ok env (config s)) outs)"
    and sw: "filter is_success newW = (if fst w then [last newW] else [])"
    and nw: "fst w \<longrightarrow> newW \<noteq> []"
    by blast
  have lw: "ac_logger (snd w) = ac_logger s @ recs @ newW"
    by (simp add: lw0 s0_def logged_fields)
  have cf: "config (logged [TryingStereoMixFallback] (snd w)) = config s"
    by (simp add: logged_fields cw)
  from stereo_mix_log [of env mixes "logged [TryingStereoMixFallback] (snd w)", folded m_def,
      unfolded cf] obtain newM where
    lm0: "ac_logger (snd m) = ac_logger (logged [TryingStereoMixFallback] (snd w)) @ newM"
    and pm: "filter is_probe newM = map TryingStereoMix (upto_first (stereo_ok env (config s)) mixes)"
    and sm: "filter is_success newM = (if fst m then [last newM] else [])"
    and nm: "fst m \<longrightarrow> newM \<noteq> []"
    by blast
  have lm: "ac_logger (snd m) = ac_logger s @ recs @ newW @ [TryingStereoMixFallback] @ newM"
    by (simp add: lm0 logged_fields lw)
  have init: "initialize env s =
     (if fst w then (Inr True, (snd w)\<lparr>is_running := True\<rparr>)
      else if fst m then (Inr True, (snd m)\<lparr>is_running := True\<rparr>)
      else (Inr False, logged [NoAudioSource] (snd m)))"
    by (simp add: initialize_eq [OF ld] outs_def [symmetric] mixes_def [symmetric]
        s0_def [symmetric] w_def [symmetric] m_def [symmetric])
  show ?thesis
    unfolding outs_def [symmetric] mixes_def [symmetric]
  proof (cases "fst w")
    case True
    have new: "new_records s (snd (initialize env s)) = recs @ newW"
      by (rule new_records_append) (simp add: init True lw)
    from nw True have ne: "newW \<noteq> []" by simp
    from wasapi_loop_won [of env outs s0] True obtain idx ws where
      "find (wasapi_ok env (config s)) outs = Some idx"
      "stream (snd w) = Some (wasapi_stream (config s) ws idx)"
      by (auto simp: w_def [symmetric] c0)
    then have dev_idx: "map_option st_device (stream (snd w)) = find (wasapi_ok env (config s)) outs"
      by (simp add: wasapi_stream_def)
    from True fw have won: "\<exists>i \<in> set outs. wasapi_ok env (config s) i" by simp
    show "fst (initialize env s) =
      Inr ((\<exists>i \<in> set outs. wasapi_ok env (config s) i)
           \<or> (\<exists>i \<in> set mixes. stereo_ok env (config s) i))
    \<and> filter is_probe (new_records s (snd (initialize env s))) =
        map TryingWasapi (upto_first (wasapi_ok env (config s)) outs)
        @ (if \<exists>i \<in> set outs. wasapi_ok env (config s) i then []
           else map TryingStereoMix (upto_first (stereo_ok env (config s)) mixes))
    \<and> (fst (initialize env s) = Inr True \<longrightarrow>
          is_running (snd (initialize env s))
          \<and> new_records s (snd (initialize env s)) \<noteq> []
          \<and> filter is_success (new_records s (snd (initialize env s))) =
              [last (new_records s (snd (initialize env s)))]
          \<and> map_option st_device (stream (snd (initialize env s))) =
              (if \<exists>i \<in> set outs. wasapi_ok env (config s) i
               then find (wasapi_ok env (config s)) outs
               else find (stereo_ok env (config s)) mixes))
    \<and> (fst (initialize env s) = Inr False \<longrightarrow>
          filter is_success (new_records s (snd (initialize env s))) = []
          \<and> is_running (snd (initialize env s)) = is_running s)"
      unfolding new
      using True won ne recs pw sw dev_idx
      by (simp add: init)
  next
    case False
    from False fw have lost: "\<not> (\<exists>i \<in> set outs. wasapi_ok env (config s) i)" by simp
    then have all: "upto_first (wasapi_ok env (config s)) outs = outs"
      by (intro upto_first_none) simp
    from False sw have sw0: "filter is_success newW = []" by simp
    show "fst (initialize env s) =
      Inr ((\<exists>i \<in> set outs. wasapi_ok env (config s) i)
           \<or> (\<exists>i \<in> set mixes. stereo_ok env (config s) i))
    \<and> filter is_probe (new_records s (snd (initialize env s))) =
        map TryingWasapi (upto_first (wasapi_ok env (config s)) outs)
        @ (if \<exists>i \<in> set outs. wasapi_ok env (config s) i then []
           else map TryingStereoMix (upto_first (stereo_ok env (config s)) mixes))
    \<and> (fst (initialize env s) = Inr True \<longrightarrow>
          is_running (snd (initialize env s))
          \<and> new_records s (snd (initialize env s)) \<noteq> []
          \<and> filter is_success (new_records s (snd (initialize env s))) =
              [last (new_records s (snd (initialize env s)))]
          \<and> map_option st_device (stream (snd (initialize env s))) =
              (if \<exists>i \<in> set outs. wasapi_ok env (config s) i
               then find (wasapi_ok env (config s)) outs
               else find (stereo_ok env (config s)) mixes))
    \<and> (fst (initialize env s) = Inr False \<longrightarrow>
          filter is_success (new_records s (snd (initialize env s))) = []
          \<and> is_running (snd (initialize env s)) = is_running s)"
    proof (cases "fst m")
      case True
      have new: "new_records s (snd (initialize env s)) =
                   recs @ newW @ [TryingStereoMixFallback] @ newM"
        by (rule new_records_append) (simp add: init False True lm)
      from nm True have ne: "newM \<noteq> []" by simp
      from stereo_mix_won [of env mixes "logged [TryingStereoMixFallback] (snd w)"] True
      obtain idx where
        "find (stereo_ok env (config s)) mixes = Some idx"
        "stream (snd m) = Some (stereo_stream (config s) idx)"
        by (auto simp: m_def [symmetric] logged_fields cw)
      then have dev_idx: "map_option st_device (stream (snd m)) = find (stereo_ok env (config s)) mixes"
        by (simp add: stereo_stream_def)
      from True fm have won: "\<exists>i \<in> set mixes. stereo_ok env (config s) i" by simp
      show ?thesis
        unfolding new
        using False True won lost ne recs pw pm sw0 sm dev_idx all
        by (simp add: init)
    next
      case nomix: False
      have new: "new_records s (snd (initialize env s)) =
                   recs @ newW @ [TryingStereoMixFallback] @ newM @ [NoAudioSource]"
        by (rule new_records_append) (simp add: init False nomix lm logged_fields)
      from nomix fm have lostm: "\<not> (\<exists>i \<in> set mixes. stereo_ok env (config s) i)" by simp
      from nomix sm have sm0: "filter is_success newM = []" by simp
      have run: "is_running (snd m) = is_running s"
        using stereo_mix_fields [of env mixes "logged [TryingStereoMixFallback] (snd w)"]
        by (simp add: m_def [symmetric] logged_fields cw)
      show ?thesis
        unfolding new
        using False nomix lost lostm recs pw pm sw0 sm0 all run
        by (simp add: init logged_fields)
    qed
  qed

qed

lemma ex_second_query: "query_devices ex_audio_second = Inr ex_devices"
  by (simp add: ex_audio_second_def ex_audio_def)

theorem first_success_wins_witness:
  "query_devices ex_audio_second = Inr ex_devices
   \<and> out_candidates_of ex_devices = [0, 1]
   \<and> stereo_candidates_of ex_audio_second ex_devices = [2]
   \<and> wasapi_ok ex_audio_second (config ex_capture) 0 = False
   \<and> wasapi_ok ex_audio_second (config ex_capture) 1 = True
   \<and> fst (initialize ex_audio_second ex_capture) = Inr True
   \<and> is_running (snd (initialize ex_audio_second ex_capture))
   \<and> filter is_probe (new_records ex_capture (snd (initialize ex_audio_second ex_capture))) =
       [TryingWasapi 0, TryingWasapi 1]
   \<and> last (new_records ex_capture (snd (initialize ex_audio_second ex_capture))) =
       WasapiSuccess 1 ''Headphones''
   \<and> map_option st_device (stream (snd (initialize ex_audio_second ex_capture))) = Some 1"

proof -
  have c: "stereo_candidates_of ex_audio_second ex_devices = [2]"
    by (simp add: ex_audio_second_def ex_stereo_candidates)
  have w0: "wasapi_ok ex_audio_second (config ex_capture) 0 = False"
    by (simp add: wasapi_ok_def wasapi_settings_def probe_ok_def ex_audio_second_def ex_audio_def
        wasapi_stream_def)
  have w1: "wasapi_ok ex_audio_second (config ex_capture) 1 = True"
    by (simp add: wasapi_ok_def wasapi_settings_def probe_ok_def ex_audio_second_def ex_audio_def
        wasapi_stream_def ex_devices_def)
  have e: "ac_logger ex_capture = []"
    by (simp add: ex_capture_def AudioCapture_init_def)
  have l: "last (new_records ex_capture (snd (initialize ex_audio_second ex_capture))) =
       WasapiSuccess 1 ''Headphones''"
    by (simp add: ex_second_init new_records_def e)
  from first_success_wins [OF ex_second_query, of ex_capture] ex_second_query c w0 w1 l
  show ?thesis
    by (simp add: ex_out_candidates upto_first_Cons)

qed

lemma int16_bytes_length: "length (int16_bytes w) = 2"
  by (simp add: int16_bytes_def)

lemma row_bytes_length: "length (concat (map int16_bytes row)) = 2 * length row"
  by (induction row) (simp_all add: int16_bytes_length)

lemma tobytes_length:
  "\<forall>row \<in> set frames. length row = c \<Longrightarrow> length (tobytes frames) = length frames * c * 2"
  by (induction frames) (simp_all add: tobytes_def row_bytes_length)

lemma initialize_success:
  assumes "initialize env s = (Inr True, s')"
  shows "is_running s' \<and> config s' = config s
       \<and> (\<exists>st. stream s' = Some st \<and> st_channels st = channels (config s)
                \<and> st_blocksize st = block_size (config s)
                \<and> st_samplerate st = sample_rate (config s) \<and> st_dtype st = ''int16'')"

proof (cases "query_devices env")
  case (Inl e)
  with assms show ?thesis by (simp add: initialize_raises)

next
  case (Inr devices)
  from list_devices_ok [OF Inr, of s] obtain recs where
    ld: "list_devices env s = (Inr devices, logged recs s)" by blast
  define s0 where "s0 = logged recs s"
  define w where "w = wasapi_loop env (out_candidates_of devices) s0"
  define m where "m = try_stereo_mix env (stereo_candidates_of env devices)
                        (logged [TryingStereoMixFallback] (snd w))"
  have c0: "config s0 = config s" by (simp add: s0_def logged_fields)
  have cw: "config (snd w) = config s"
    using wasapi_loop_fields [of env "out_candidates_of devices" s0] by (simp add: w_def c0)
  have cm: "config (snd m) = config s"
    using stereo_mix_fields [of env "stereo_candidates_of env devices"
        "logged [TryingStereoMixFallback] (snd w)"]
    by (simp add: m_def logged_fields cw)
  have init: "initialize env s =
     (if fst w then (Inr True, (snd w)\<lparr>is_running := True\<rparr>)
      else if fst m then (Inr True, (snd m)\<lparr>is_running := True\<rparr>)
      else (Inr False, logged [NoAudioSource] (snd m)))"
    by (simp add: initialize_eq [OF ld] s0_def [symmetric] w_def [symmetric] m_def [symmetric])
  show ?thesis
  proof (cases "fst w")
    case True
    from wasapi_loop_won [of env "out_candidates_of devices" s0] True obtain idx ws where
      "stream (snd w) = Some (wasapi_stream (config s) ws idx)"
      by (auto simp: w_def [symmetric] c0)
    with assms True show ?thesis
      by (auto simp: init cw wasapi_stream_def)
  next
    case False
    with assms have fm: "fst m" by (simp add: init split: if_splits)
    from stereo_mix_won [of env "stereo_candidates_of env devices"
        "logged [TryingStereoMixFallback] (snd w)"] fm obtain idx where
      "stream (snd m) = Some (stereo_stream (config s) idx)"
      by (auto simp: m_def [symmetric] logged_fields cw)
    with assms False fm show ?thesis
      by (auto simp: init cm stereo_stream_def)
  qed

qed

lemma read_block_None:
  "(fst (read_block env t) = None) =
     (stream t = None \<or> \<not> is_running t
      \<or> (\<exists>st e. stream t = Some st \<and> stream_read env st (block_size (config t)) = Inl e))"
  by (auto simp: read_block_def split: option.splits sum.splits)

text \<open>
  Claim C4. After an \<open>initialize\<close> that returned \<open>True\<close> the source holds a stream and is
  running. If the read of \<open>block_size\<close> frames raises, \<open>read_block\<close> logs the error and
  returns \<open>None\<close>; if it returns frames, under the contract of the library's read,
  \<open>read_block\<close> returns their bytes, \<open>block_size * channels * 2\<close> of them. In any state
  \<open>read_block\<close> returns \<open>None\<close> exactly when there is no stream, the source is not
  running or the read raises. \<open>read_block\<close> is total: it has no other outcome.
\<close>

theorem read_block_after_initialize:
  assumes contract: "read_contract env"
      and init: "initialize env s = (Inr True, s')"
  shows "(\<exists>st. stream s' = Some st \<and> is_running s'
           \<and> (case stream_read env st (block_size (config s')) of
                 Inl e \<Rightarrow> read_block env s' = (None, logged [ErrorReading e] s')
               | Inr (frames, overflowed) \<Rightarrow>
                   read_block env s' = (Some (tobytes frames), s')
                   \<and> (\<exists>k c. as_int (block_size (config s')) = Some k
                          \<and> as_int (channels (config s')) = Some c
                          \<and> int (length (tobytes frames)) = k * c * 2)))
       \<and> ((fst (read_block env t) = None) =
            (stream t = None \<or> \<not> is_running t
             \<or> (\<exists>st e. stream t = Some st \<and> stream_read env st (block_size (config t)) = Inl e)))"

proof -
  from initialize_success [OF init] obtain st where
    run: "is_running s'" and cfg: "config s' = config s"
    and st: "stream s' = Some st" "st_channels st = channels (config s)"
    by blast
  have "case stream_read env st (block_size (config s')) of
          Inl e \<Rightarrow> read_block env s' = (None, logged [ErrorReading e] s')
        | Inr (frames, overflowed) \<Rightarrow>
            read_block env s' = (Some (tobytes frames), s')
            \<and> (\<exists>k c. as_int (block_size (config s')) = Some k
                   \<and> as_int (channels (config s')) = Some c
                   \<and> int (length (tobytes frames)) = k * c * 2)"
  proof (cases "stream_read env st (block_size (config s'))")
    case (Inl e)
    with run st show ?thesis by (simp add: read_block_def)
  next
    case (Inr res)
    obtain frames overflowed where res: "res = (frames, overflowed)" by (cases res)
    from contract Inr res obtain k c where
      k: "as_int (block_size (config s')) = Some k" and c: "as_int (st_channels st) = Some c"
      and len: "int (length frames) = k" and rows: "\<forall>row \<in> set frames. int (length row) = c"
      unfolding read_contract_def by blast
    have "int (length (tobytes frames)) = k * c * 2"
    proof (cases frames)
      case Nil
      with len show ?thesis by (simp add: tobytes_def)
    next
      case (Cons row rest)
      with rows have "c = int (length row)" by simp
      with rows have "\<forall>r \<in> set frames. length r = length row" by simp
      from tobytes_length [OF this] len \<open>c = int (length row)\<close> show ?thesis by simp
    qed
    with Inr res run st k c cfg show ?thesis
      by (simp add: read_block_def)
  qed
  with st run show ?thesis
    by (simp add: read_block_None)

qed

lemma ex_second_contract: "read_contract ex_audio_second"
  by (auto simp: read_contract_def ex_audio_second_def ex_audio_def split: option.splits if_splits)

theorem read_block_after_initialize_witness:
  "read_contract ex_audio_second
   \<and> capture_invariant (config ex_capture)
   \<and> fst (initialize ex_audio_second ex_capture) = Inr True
   \<and> block_size (config ex_capture) = PyInt 1024
   \<and> channels (config ex_capture) = PyInt 2
   \<and> map_option length
        (fst (read_block ex_audio_second (snd (initialize ex_audio_second ex_capture)))) =
       Some 4096"

proof -
  define s' where "s' = snd (initialize ex_audio_second ex_capture)"
  have init: "initialize ex_audio_second ex_capture = (Inr True, s')"
    by (simp add: s'_def ex_second_init)
  have s': "stream s' = Some (wasapi_stream ServerConfig_default (Some WasapiLoopback) 1)"
    "config s' = ServerConfig_default"
    by (simp_all add: s'_def ex_second_init)
  have rd: "stream_read ex_audio_second (wasapi_stream ServerConfig_default ws idx) (PyInt 1024) =
            Inr (replicate 1024 (replicate 2 0), False)" for ws idx
    by (simp add: ex_audio_second_def ex_audio_def wasapi_stream_def ServerConfig_default_def)
  have cfg: "block_size (config ex_capture) = PyInt 1024" "channels (config ex_capture) = PyInt 2"
    "block_size ServerConfig_default = PyInt 1024" "channels ServerConfig_default = PyInt 2"
    by (simp_all add: ex_capture_def AudioCapture_init_def ServerConfig_default_def)
  have inv: "capture_invariant (config ex_capture)"
    by (simp add: ex_capture_def AudioCapture_init_def default_invariant)
  from read_block_after_initialize [OF ex_second_contract init]
  have "fst (read_block ex_audio_second s') = Some (tobytes (replicate 1024 (replicate 2 0)))
      \<and> int (length (tobytes (replicate 1024 (replicate 2 0)))) = 1024 * 2 * 2"
    by (simp add: s' rd cfg)
  then have "map_option length (fst (read_block ex_audio_second s')) = Some 4096"
    by simp
  moreover have "fst (initialize ex_audio_second ex_capture) = Inr True"
    by (simp add: ex_second_init)
  ultimately show ?thesis
    using ex_second_contract inv cfg by (simp add: s'_def)

qed

section \<open>The invariant of the device source\<close>

lemma wasapi_loop_keeps_handle:
  "stream s \<noteq> None \<Longrightarrow> stream (snd (wasapi_loop env idxs s)) \<noteq> None"

proof (cases "fst (wasapi_loop env idxs s)")
  case True
  from wasapi_loop_won [OF True] show ?thesis by auto

next
  case False
  assume "stream s \<noteq> None"
  with wasapi_loop_failed [OF False] show ?thesis by (simp add: final_handle_Some)

qed

lemma stereo_mix_keeps_handle:
  "stream s \<noteq> None \<Longrightarrow> stream (snd (try_stereo_mix env idxs s)) \<noteq> None"

proof (cases "fst (try_stereo_mix env idxs s)")
  case True
  from stereo_mix_won [OF True] show ?thesis by auto

next
  case False
  assume "stream s \<noteq> None"
  with stereo_mix_failed [OF False] show ?thesis by (simp add: final_handle_Some)

qed

lemma initialize_keeps_handle:
  assumes "stream s \<noteq> None"
  shows "stream (snd (initialize env s)) \<noteq> None"

proof (cases "query_devices env")
  case (Inl e)
  with assms show ?thesis by (simp add: initialize_raises)

next
  case (Inr devices)
  from list_devices_ok [OF Inr, of s] obtain recs where
    ld: "list_devices env s = (Inr devices, logged recs s)" by blast
  have "stream (logged recs s) \<noteq> None" using assms by (simp add: logged_fields)
  then have w: "stream (snd (wasapi_loop env (out_candidates_of devices) (logged recs s))) \<noteq> None"
    by (rule wasapi_loop_keeps_handle)
  then have "stream (logged [TryingStereoMixFallback]
               (snd (wasapi_loop env (out_candidates_of devices) (logged recs s)))) \<noteq> None"
    by (simp add: logged_fields)
  then have "stream (snd (try_stereo_mix env (stereo_candidates_of env devices)
               (logged [TryingStereoMixFallback]
                  (snd (wasapi_loop env (out_candidates_of devices) (logged recs s)))))) \<noteq> None"
    by (rule stereo_mix_keeps_handle)
  with w show ?thesis
    by (simp add: initialize_eq [OF ld] logged_fields)

qed

lemma initialize_running:
  "is_running (snd (initialize env s)) \<Longrightarrow> fst (initialize env s) = Inr True \<or> is_running s"

proof (cases "query_devices env")
  case (Inl e)
  assume "is_running (snd (initialize env s))"
  with Inl show ?thesis by (simp add: initialize_raises)

next
  case (Inr devices)
  assume run: "is_running (snd (initialize env s))"
  from list_devices_ok [OF Inr, of s] obtain recs where
    ld: "list_devices env s = (Inr devices, logged recs s)" by blast
  from wasapi_loop_fields [of env "out_candidates_of devices" "logged recs s"]
    stereo_mix_fields [of env "stereo_candidates_of env devices"
      "logged [TryingStereoMixFallback]
         (snd (wasapi_loop env (out_candidates_of devices) (logged recs s)))"]
    run
  show ?thesis
    by (simp add: initialize_eq [OF ld] logged_fields split: if_splits)

qed

lemma AudioCapture_inv_init: "AudioCapture_inv (AudioCapture_init cfg)"
  by (simp add: AudioCapture_inv_def AudioCapture_init_def)

lemma AudioCapture_inv_initialize:
  assumes "AudioCapture_inv s"
  shows "AudioCapture_inv (snd (initialize env s))"
  unfolding AudioCapture_inv_def

proof
  assume "is_running (snd (initialize env s))"
  from initialize_running [OF this] show "stream (snd (initialize env s)) \<noteq> None"
  proof
    assume "fst (initialize env s) = Inr True"
    then have "initialize env s = (Inr True, snd (initialize env s))"
      by (cases "initialize env s") simp
    from initialize_success [OF this] show ?thesis by auto
  next
    assume "is_running s"
    with assms have "stream s \<noteq> None" by (simp add: AudioCapture_inv_def)
    then show ?thesis by (rule initialize_keeps_handle)
  qed

qed

lemma AudioCapture_inv_read_block:
  "AudioCapture_inv s \<Longrightarrow> AudioCapture_inv (snd (read_block env s))"
  by (auto simp: AudioCapture_inv_def read_block_def logged_fields split: option.splits sum.splits)

lemma AudioCapture_inv_stop: "AudioCapture_inv s \<Longrightarrow> AudioCapture_inv (stop env s)"
  by (simp add: AudioCapture_inv_def stop_stream)

lemma AudioCapture_inv_reinitialize:
  "AudioCapture_inv s \<Longrightarrow> AudioCapture_inv (snd (reinitialize env s))"
  unfolding reinitialize_def
  by (intro AudioCapture_inv_initialize AudioCapture_inv_stop) (simp add: AudioCapture_inv_def logged_fields)

end
